theory Spec2Isabelle
  imports Main "HOL-Library.Word"
begin

unbundle bit_operations_syntax

section \<open>Data model of the Elantech trackpad driver\<close>

text \<open>
  The C types of the driver: \<open>UInt8\<close> and \<open>unsigned char\<close> are 8-bit words,
  \<open>UInt32\<close> and \<open>unsigned int\<close> are 32-bit words, \<open>int\<close> results of comparisons
  against the \<open>PACKET_*\<close> macros are mathematical integers (the values are tiny).
\<close>

type_synonym UInt8 = "8 word"
type_synonym UInt32 = "32 word"
type_synonym SInt16 = "16 word"

text \<open>
  \<open>IOGPoint\<close> is declared in the IOKit graphics headers (not part of this
  repository): a pair of signed 16-bit coordinates \<open>x\<close> and \<open>y\<close>, here \<open>pt_x\<close> and
  \<open>pt_y\<close>.  The fields are 16-bit words read with \<open>sint\<close> / \<open>scast\<close>.
\<close>

record IOGPoint =
  pt_x :: SInt16
  pt_y :: SInt16

text \<open>The packet types of \<open>VoodooPS2ElanTrackpad.h\<close>.\<close>

definition PACKET_UNKNOWN :: int where "PACKET_UNKNOWN = 0x01"
definition PACKET_DEBOUNCE :: int where "PACKET_DEBOUNCE = 0x02"
definition PACKET_V3_HEAD :: int where "PACKET_V3_HEAD = 0x03"
definition PACKET_V3_TAIL :: int where "PACKET_V3_TAIL = 0x04"

definition ETP_MAX_FINGERS :: nat where "ETP_MAX_FINGERS = 5"
definition ETP_TAPTOCLICK_DIST :: "32 word" where "ETP_TAPTOCLICK_DIST = 32"

definition ETP_REGISTER_READ :: UInt8 where "ETP_REGISTER_READ = 0x10"
definition ETP_REGISTER_WRITE :: UInt8 where "ETP_REGISTER_WRITE = 0x11"
definition ETP_REGISTER_READWRITE :: UInt8 where "ETP_REGISTER_READWRITE = 0x00"
definition ETP_PS2_CUSTOM_COMMAND :: UInt8 where "ETP_PS2_CUSTOM_COMMAND = 0xf8"
definition ETP_FW_VERSION_QUERY :: UInt8 where "ETP_FW_VERSION_QUERY = 0x01"

text \<open>
  \<open>struct elantech_data\<close>.  The parity table is an array of 256 bytes that
  \<open>probe\<close> fills; an entry that has not been written yet is \<open>None\<close>, so that a
  read of an uninitialised entry is visible in the model.
\<close>

record elantech_data =
  reg_07 :: UInt8
  reg_10 :: UInt8
  reg_11 :: UInt8
  reg_20 :: UInt8
  reg_21 :: UInt8
  reg_22 :: UInt8
  reg_23 :: UInt8
  reg_24 :: UInt8
  reg_25 :: UInt8
  reg_26 :: UInt8
  debug :: UInt8
  capabilities :: "UInt8 list"
  paritycheck :: bool
  jumpy_cursor :: bool
  reports_pressure :: bool
  hw_version :: UInt8
  fw_version :: UInt32
  single_finger_reports :: UInt32
  y_max :: UInt32
  width :: UInt32
  mt :: "IOGPoint list"
  parity :: "UInt8 option list"
  send_cmd :: bool

section \<open>Version resolver: \<open>elantech_set_properties\<close>\<close>

text \<open>
  The part of \<open>elantech_set_properties\<close> after the hardware version is fixed
  (lines 64 to 86 of the source).  The result is the pair of the return code and the
  updated device data.
\<close>

definition set_properties_flags :: "elantech_data \<Rightarrow> int \<times> elantech_data" where
  "set_properties_flags etd =
     (let etd1 = etd\<lparr>send_cmd := (if hw_version etd \<ge> 3 then True else False)\<rparr>;
          etd2 = etd1\<lparr>paritycheck := True\<rparr>;
          etd3 = etd2\<lparr>jumpy_cursor :=
                   (fw_version etd2 = 0x020022 \<or> fw_version etd2 = 0x020600)\<rparr>;
          etd4 = (if hw_version etd3 > 1
                  then (let e = etd3\<lparr>debug := 2\<rparr>
                        in if fw_version e \<ge> 0x020800
                           then e\<lparr>reports_pressure := True\<rparr> else e)
                  else etd3)
      in (0, etd4))"

definition elantech_set_properties :: "elantech_data \<Rightarrow> int \<times> elantech_data" where
  "elantech_set_properties etd =
     (let ver = drop_bit 16 (fw_version etd AND 0x0f0000)
      in if fw_version etd < 0x020030 \<or> fw_version etd = 0x020600
         then set_properties_flags (etd\<lparr>hw_version := 1\<rparr>)
         else if ver = 2 \<or> ver = 4 then set_properties_flags (etd\<lparr>hw_version := 2\<rparr>)
         else if ver = 5 then set_properties_flags (etd\<lparr>hw_version := 3\<rparr>)
         else if ver = 6 then set_properties_flags (etd\<lparr>hw_version := 4\<rparr>)
         else (- 1, etd))"

section \<open>Packet classifier for hardware version 3\<close>

definition debounce_packet :: "UInt8 list" where
  "debounce_packet = [0xc4, 0xff, 0xff, 0x02, 0xff, 0xff]"

text \<open>
  \<open>memcmp\<close> over \<open>sizeof(debounce_packet)\<close> bytes compares the first six bytes of
  the packet buffer with the pattern.
\<close>

definition elantech_packet_check_v3 :: "elantech_data \<Rightarrow> UInt8 list \<Rightarrow> int" where
  "elantech_packet_check_v3 etd packet =
     (if take (length debounce_packet) packet = debounce_packet then PACKET_DEBOUNCE
      else if (packet ! 0) AND 0x0c = 0x04 \<and> (packet ! 3) AND 0xcf = 0x02
      then PACKET_V3_HEAD
      else if (packet ! 0) AND 0x0c = 0x0c \<and> (packet ! 3) AND 0xce = 0x0c
      then PACKET_V3_TAIL
      else PACKET_UNKNOWN)"

section \<open>Signature check and parity table of \<open>probe\<close>\<close>

definition rates :: "UInt8 list" where
  "rates = [200, 100, 80, 60, 40, 20, 10]"

fun rates_loop :: "UInt8 \<Rightarrow> UInt8 list \<Rightarrow> bool" where
  "rates_loop p2 [] = True"
| "rates_loop p2 (r # rs) = (if p2 = r then False else rates_loop p2 rs)"

definition elantech_is_signature_valid :: "UInt8 list \<Rightarrow> bool" where
  "elantech_is_signature_valid param =
     (if param ! 0 = 0 then False
      else if param ! 1 = 0 then True
      else rates_loop (param ! 2) rates)"

text \<open>
  The loop \<open>for (i = 1; i < 256; i++) parity[i] = parity[i & (i - 1)] ^ 1\<close>.
  Reading an entry that was never written ends the construction with \<open>None\<close>.
\<close>

definition parity_read :: "UInt8 option list \<Rightarrow> nat \<Rightarrow> UInt8 option" where
  "parity_read tab k = (if k < length tab then tab ! k else None)"

function parity_loop :: "nat \<Rightarrow> UInt8 option list \<Rightarrow> UInt8 option list option" where
  "parity_loop i tab =
     (if i < 256
      then (case parity_read tab (i AND (i - 1)) of
              None \<Rightarrow> None
            | Some v \<Rightarrow> parity_loop (i + 1) (tab[i := Some (v XOR 1)]))
      else Some tab)"
  by pat_completeness auto
termination
  by (relation "measure (\<lambda>(i, tab). 256 - i)") auto

declare parity_loop.simps [simp del]

definition parity_build :: "UInt8 option list \<Rightarrow> UInt8 option list option" where
  "parity_build tab = parity_loop 1 (tab[0 := Some 1])"

text \<open>The table before \<open>probe\<close> runs: 256 entries, none of them written.\<close>

definition parity_unset :: "UInt8 option list" where
  "parity_unset = replicate 256 None"

text \<open>The number of one bits of a number (the reference for the parity table).\<close>

fun popcount :: "nat \<Rightarrow> nat" where
  "popcount n = (if n = 0 then 0 else n mod 2 + popcount (n div 2))"

declare popcount.simps [simp del]


section \<open>\<open>probe\<close>: detection\<close>

text \<open>
  What \<open>probe\<close> receives from outside: the result of the superclass probe, of the
  three \<open>allocateRequest\<close> calls, the three bytes read back after the magic knock,
  and the reply to the firmware version query (\<open>None\<close> when \<open>synaptics_send_cmd\<close>
  could not allocate a request: it then leaves \<open>Byte\<close> as it was, and \<open>probe\<close>
  ignores its return code).
\<close>

record probe_env =
  super_probe_ok :: bool
  alloc_knock :: bool
  alloc_spare :: bool
  alloc_query :: bool
  knock :: "UInt8 list"
  version_reply :: "UInt8 list option"

datatype probe_error =
  SuperProbeFailed | NoRequest | BadMagicKnock | InvalidSignature
  | UninitialisedRead | UnknownHardware

definition probe :: "probe_env \<Rightarrow> elantech_data \<Rightarrow> probe_error + elantech_data" where
  "probe env etd =
     (if \<not> super_probe_ok env then Inl SuperProbeFailed
      else if \<not> alloc_knock env then Inl NoRequest
      else let Byte = knock env
      in if \<not> alloc_spare env then Inl NoRequest
      else if Byte ! 0 \<noteq> 0x3c \<or> Byte ! 1 \<noteq> 0x03 \<or> (Byte ! 2 \<noteq> 0xc8 \<and> Byte ! 2 \<noteq> 0x00)
      then Inl BadMagicKnock
      else if \<not> alloc_query env then Inl NoRequest
      else let Byte = (case version_reply env of None \<Rightarrow> Byte | Some r \<Rightarrow> r)
      in if \<not> elantech_is_signature_valid Byte then Inl InvalidSignature
      else (case parity_build (parity etd) of
              None \<Rightarrow> Inl UninitialisedRead
            | Some tab \<Rightarrow>
                (let etd1 = etd\<lparr>parity := tab\<rparr>;
                     etd2 = etd1\<lparr>fw_version :=
                              push_bit 16 (ucast (Byte ! 0)) OR push_bit 8 (ucast (Byte ! 1))
                                OR ucast (Byte ! 2)\<rparr>
                 in case elantech_set_properties etd2 of
                      (rc, etd3) \<Rightarrow> if rc \<noteq> 0 then Inl UnknownHardware else Inr etd3)))"

section \<open>Command codec\<close>

text \<open>
  \<open>PS2Request\<close>, its command entries and the \<open>kDP_*\<close> command bytes are declared in
  \<open>ApplePS2Device.h\<close>, which is not among the sources.  The two request kinds the
  codec uses are the members of an enumeration; the values of the \<open>kDP_*\<close> bytes are
  taken as a parameter \<open>K\<close> of every function that uses them.
\<close>

datatype PS2CommandEnum = kPS2C_SendMouseCommandAndCompareAck | kPS2C_ReadDataPort

record PS2Command =
  command :: PS2CommandEnum
  inOrOut :: UInt8

record PS2Request =
  commandsCount :: nat
  commands :: "nat \<Rightarrow> PS2Command"

record ps2_consts =
  kDP_SetMouseScaling1To1 :: UInt8
  kDP_SetMouseResolution :: UInt8
  kDP_GetMouseInformation :: UInt8
  kDP_SetAllMakeRelease :: UInt8

text \<open>
  \<open>request->commands[j].command = c; request->commands[j].inOrOut = v;\<close>
\<close>

definition set_command :: "nat \<Rightarrow> PS2CommandEnum \<Rightarrow> UInt8 \<Rightarrow> PS2Request \<Rightarrow> PS2Request" where
  "set_command j c v request =
     request\<lparr>commands := (commands request)(j := \<lparr>command = c, inOrOut = v\<rparr>)\<rparr>"

text \<open>The same two assignments followed by \<open>j++\<close>.\<close>

definition put_command :: "PS2CommandEnum \<times> UInt8 \<Rightarrow> PS2Request \<times> nat \<Rightarrow> PS2Request \<times> nat" where
  "put_command cv rj = (case rj of (request, j) \<Rightarrow> (set_command j (fst cv) (snd cv) request, j + 1))"

text \<open>
  The loop \<open>for (int i = 6; i >= 0; i -= 2)\<close> of \<open>psmouse_sliced_command\<close>.
\<close>

function sliced_loop :: "ps2_consts \<Rightarrow> int \<Rightarrow> UInt32 \<Rightarrow> PS2Request \<times> nat \<Rightarrow> PS2Request \<times> nat" where
  "sliced_loop K i cmd rj =
     (if i \<ge> 0
      then (case rj of (request, j) \<Rightarrow>
              (let d = (ucast (drop_bit (nat i) cmd AND 3) :: UInt8);
                   j1 = j + 1;
                   request1 = set_command j1 kPS2C_SendMouseCommandAndCompareAck
                                (kDP_SetMouseResolution K) request;
                   j2 = j1 + 1;
                   request2 = set_command j2 kPS2C_SendMouseCommandAndCompareAck d request1
               in sliced_loop K (i - 2) cmd (request2, j2)))
      else rj)"
  by pat_completeness auto
termination
  by (relation "measure (\<lambda>(K, i, cmd, rj). nat (i + 2))") auto

declare sliced_loop.simps [simp del]

text \<open>
  \<open>psmouse_sliced_command\<close> writes from index \<open>j\<close> on and leaves \<open>j\<close> at the last
  entry it wrote.  The request is the one its callers allocated and checked, so the
  null test of the source cannot fire; the result is the return code, the request and
  the new \<open>j\<close>.
\<close>

definition psmouse_sliced_command ::
    "ps2_consts \<Rightarrow> PS2Request \<Rightarrow> nat \<Rightarrow> UInt32 \<Rightarrow> int \<times> PS2Request \<times> nat" where
  "psmouse_sliced_command K request j cmd =
     (let request1 = set_command j kPS2C_SendMouseCommandAndCompareAck
                       (kDP_SetMouseScaling1To1 K) request
      in case sliced_loop K 6 cmd (request1, j) of (request2, j2) \<Rightarrow> (0, request2, j2))"

text \<open>
  Modelled from the spec: \<open>submitRequestAndBlock\<close> belongs to the bus layer, which is
  not among the sources.  The spec describes it as submitting an ordered list of bus
  operations and returning the reply bytes: the entries \<open>0 .. commandsCount - 1\<close> are
  put on the bus, and every read-port entry receives the next byte the device
  delivers.  The bus is the list of the requests submitted so far.
\<close>

type_synonym ps2_bus = "PS2Command list list"

definition issued :: "PS2Request \<Rightarrow> PS2Command list" where
  "issued request = map (commands request) [0..<commandsCount request]"

fun fill_reads :: "UInt8 list \<Rightarrow> PS2Command list \<Rightarrow> PS2Command list" where
  "fill_reads rs [] = []"
| "fill_reads rs (c # cs) =
     (if command c = kPS2C_ReadDataPort
      then (case rs of
              [] \<Rightarrow> c # fill_reads [] cs
            | r # rs' \<Rightarrow> c\<lparr>inOrOut := r\<rparr> # fill_reads rs' cs)
      else c # fill_reads rs cs)"

definition submitRequestAndBlock ::
    "UInt8 list \<Rightarrow> PS2Request \<Rightarrow> ps2_bus \<Rightarrow> PS2Request \<times> ps2_bus" where
  "submitRequestAndBlock reply request bus =
     (request\<lparr>commands := (\<lambda>i. if i < commandsCount request
                                  then fill_reads reply (issued request) ! i
                                  else commands request i)\<rparr>,
      bus @ [issued request])"

text \<open>A command entry as a pair, for the straight-line runs of assignments.\<close>

definition send_entry :: "UInt8 \<Rightarrow> PS2CommandEnum \<times> UInt8" where
  "send_entry v = (kPS2C_SendMouseCommandAndCompareAck, v)"

definition read_entry :: "PS2CommandEnum \<times> UInt8" where
  "read_entry = (kPS2C_ReadDataPort, 0)"

text \<open>
  \<open>elantech_write_reg\<close>.  \<open>alloc\<close> is what \<open>allocateRequest\<close> returned.  The result is
  the return code and the bus.
\<close>

definition elantech_write_reg ::
    "ps2_consts \<Rightarrow> elantech_data \<Rightarrow> PS2Request option \<Rightarrow> UInt8 \<Rightarrow> UInt8 \<Rightarrow> ps2_bus
       \<Rightarrow> int \<times> ps2_bus" where
  "elantech_write_reg K etd alloc reg val bus =
     (if reg < 0x07 \<or> reg > 0x26 then (- 1, bus)
      else if reg > 0x11 \<and> reg < 0x20 then (- 1, bus)
      else case alloc of
        None \<Rightarrow> (- 1, bus)
      | Some request \<Rightarrow>
          (if hw_version etd = 1 then
             (case psmouse_sliced_command K request 0 (ucast ETP_REGISTER_WRITE) of
                (rc1, request1, j1) \<Rightarrow>
             (case psmouse_sliced_command K request1 (j1 + 1) (ucast reg) of
                (rc2, request2, j2) \<Rightarrow>
             (case psmouse_sliced_command K request2 (j2 + 1) (ucast val) of
                (rc3, request3, j3) \<Rightarrow>
             (case put_command (send_entry (kDP_SetMouseScaling1To1 K)) (request3, j3 + 1) of
                (request4, j4) \<Rightarrow>
                  (0, snd (submitRequestAndBlock [] (request4\<lparr>commandsCount := j4\<rparr>) bus))))))
           else if hw_version etd = 2 then
             (case fold put_command
                     [send_entry ETP_PS2_CUSTOM_COMMAND, send_entry ETP_REGISTER_WRITE,
                      send_entry ETP_PS2_CUSTOM_COMMAND, send_entry reg,
                      send_entry ETP_PS2_CUSTOM_COMMAND, send_entry val,
                      send_entry (kDP_SetMouseScaling1To1 K)] (request, 0) of
                (request1, j) \<Rightarrow>
                  (0, snd (submitRequestAndBlock [] (request1\<lparr>commandsCount := j\<rparr>) bus)))
           else if hw_version etd = 3 then
             (case fold put_command
                     [send_entry ETP_PS2_CUSTOM_COMMAND, send_entry ETP_REGISTER_READWRITE,
                      send_entry ETP_PS2_CUSTOM_COMMAND, send_entry reg,
                      send_entry ETP_PS2_CUSTOM_COMMAND, send_entry val,
                      send_entry (kDP_SetMouseScaling1To1 K)] (request, 0) of
                (request1, j) \<Rightarrow>
                  (0, snd (submitRequestAndBlock [] (request1\<lparr>commandsCount := j\<rparr>) bus)))
           else if hw_version etd = 4 then
             (case fold put_command
                     [send_entry ETP_PS2_CUSTOM_COMMAND, send_entry ETP_REGISTER_READWRITE,
                      send_entry ETP_PS2_CUSTOM_COMMAND, send_entry reg,
                      send_entry ETP_PS2_CUSTOM_COMMAND, send_entry ETP_REGISTER_READWRITE,
                      send_entry ETP_PS2_CUSTOM_COMMAND, send_entry val,
                      send_entry (kDP_SetMouseScaling1To1 K)] (request, 0) of
                (request1, j) \<Rightarrow>
                  (0, snd (submitRequestAndBlock [] (request1\<lparr>commandsCount := j\<rparr>) bus)))
           else (0, bus)))"

text \<open>
  The switch on the hardware version in \<open>elantech_read_reg\<close> (lines 1310 to 1348):
  the request and the index \<open>j\<close> after it.
\<close>

definition read_reg_switch ::
    "ps2_consts \<Rightarrow> elantech_data \<Rightarrow> PS2Request \<Rightarrow> UInt8 \<Rightarrow> PS2Request \<times> nat" where
  "read_reg_switch K etd request reg =
     (if hw_version etd = 1 then
        (case psmouse_sliced_command K request 0 (ucast ETP_REGISTER_READ) of
           (rc1, request1, j1) \<Rightarrow>
        (case psmouse_sliced_command K request1 (j1 + 1) (ucast reg) of
           (rc2, request2, j2) \<Rightarrow> (request2, j2 + 1)))
      else if hw_version etd = 2 then
        fold put_command
          [send_entry ETP_PS2_CUSTOM_COMMAND, send_entry ETP_REGISTER_READ,
           send_entry ETP_PS2_CUSTOM_COMMAND, send_entry reg] (request, 0)
      else if hw_version etd = 3 \<or> hw_version etd = 4 then
        fold put_command
          [send_entry ETP_PS2_CUSTOM_COMMAND, send_entry ETP_REGISTER_READWRITE,
           send_entry ETP_PS2_CUSTOM_COMMAND, send_entry reg] (request, 0)
      else (request, 0))"

text \<open>
  \<open>elantech_read_reg\<close>.  \<open>reply\<close> are the bytes the device delivers to the read-port
  entries of the request.  The result is the return code, the value stored through
  \<open>val\<close> (\<open>None\<close> when nothing is stored) and the bus.
\<close>

definition elantech_read_reg ::
    "ps2_consts \<Rightarrow> elantech_data \<Rightarrow> PS2Request option \<Rightarrow> UInt8 list \<Rightarrow> UInt8 \<Rightarrow> ps2_bus
       \<Rightarrow> int \<times> UInt8 option \<times> ps2_bus" where
  "elantech_read_reg K etd alloc reply reg bus =
     (if reg < 0x07 \<or> reg > 0x26 then (- 1, None, bus)
      else if reg > 0x11 \<and> reg < 0x20 then (- 1, None, bus)
      else case alloc of
        None \<Rightarrow> (- 1, None, bus)
      | Some request \<Rightarrow>
          (case fold put_command
                  [send_entry (kDP_GetMouseInformation K), read_entry, read_entry, read_entry]
                  (read_reg_switch K etd request reg) of
             (request1, j) \<Rightarrow>
               (case submitRequestAndBlock reply (request1\<lparr>commandsCount := j\<rparr>) bus of
                  (request2, bus') \<Rightarrow>
                    (let param = [inOrOut (commands request2 (j - 3)),
                                  inOrOut (commands request2 (j - 2)),
                                  inOrOut (commands request2 (j - 1))]
                     in (0, Some (if hw_version etd \<noteq> 4 then param ! 0 else param ! 1),
                         bus')))))"

text \<open>
  The queries.  \<open>synaptics_send_cmd\<close> sends the opcode sliced, \<open>elantech_send_cmd\<close>
  sends it after \<open>kDP_SetAllMakeRelease\<close>; both end with the query-info command and
  three port reads and store the three bytes read in \<open>param\<close>.  The result is the
  return code, \<open>param\<close> and the bus.  \<open>send_cmd\<close>, here \<open>send_cmd_by_flag\<close> (the
  device data has a field of the same name), chooses between them by its flag, for
  which the callers pass \<open>etd->send_cmd\<close>.
\<close>

definition synaptics_send_cmd ::
    "ps2_consts \<Rightarrow> PS2Request option \<Rightarrow> UInt8 list \<Rightarrow> UInt8 \<Rightarrow> UInt8 list \<Rightarrow> ps2_bus
       \<Rightarrow> int \<times> UInt8 list \<times> ps2_bus" where
  "synaptics_send_cmd K alloc reply c param bus =
     (case alloc of
        None \<Rightarrow> (- 1, param, bus)
      | Some request \<Rightarrow>
          (case psmouse_sliced_command K request 0 (ucast c) of
             (rc1, request1, j1) \<Rightarrow>
          (case fold put_command
                  [send_entry (kDP_GetMouseInformation K), read_entry, read_entry, read_entry]
                  (request1, j1 + 1) of
             (request2, j) \<Rightarrow>
          (case submitRequestAndBlock reply (request2\<lparr>commandsCount := j\<rparr>) bus of
             (request3, bus') \<Rightarrow>
               (0, [inOrOut (commands request3 (j - 3)), inOrOut (commands request3 (j - 2)),
                    inOrOut (commands request3 (j - 1))], bus')))))"

definition elantech_send_cmd ::
    "ps2_consts \<Rightarrow> PS2Request option \<Rightarrow> UInt8 list \<Rightarrow> UInt8 \<Rightarrow> UInt8 list \<Rightarrow> ps2_bus
       \<Rightarrow> int \<times> UInt8 list \<times> ps2_bus" where
  "elantech_send_cmd K alloc reply c param bus =
     (case alloc of
        None \<Rightarrow> (- 1, param, bus)
      | Some request \<Rightarrow>
          (case fold put_command
                  [send_entry (kDP_SetAllMakeRelease K), send_entry c,
                   send_entry (kDP_GetMouseInformation K), read_entry, read_entry, read_entry]
                  (request, 0) of
             (request1, j) \<Rightarrow>
          (case submitRequestAndBlock reply (request1\<lparr>commandsCount := j\<rparr>) bus of
             (request2, bus') \<Rightarrow>
               (0, [inOrOut (commands request2 (j - 3)), inOrOut (commands request2 (j - 2)),
                    inOrOut (commands request2 (j - 1))], bus'))))"

definition send_cmd_by_flag ::
    "ps2_consts \<Rightarrow> PS2Request option \<Rightarrow> UInt8 list \<Rightarrow> UInt8 \<Rightarrow> UInt8 list \<Rightarrow> bool \<Rightarrow> ps2_bus
       \<Rightarrow> int \<times> UInt8 list \<times> ps2_bus" where
  "send_cmd_by_flag K alloc reply c param s bus =
     (if s then elantech_send_cmd K alloc reply c param bus
      else synaptics_send_cmd K alloc reply c param bus)"

text \<open>
  \<open>elantech_set_range\<close>.  The five ranges it writes through its pointer arguments are
  a record; \<open>q1\<close> and \<open>q2\<close> are, for its first and second query, what
  \<open>allocateRequest\<close> returns and the bytes the device delivers.  The arithmetic on
  \<open>capabilities\<close> and \<open>param\<close> is C \<open>int\<close> arithmetic (the division truncates
  towards zero), stored in an \<open>unsigned int\<close>.
\<close>

definition ETP_FW_ID_QUERY :: UInt8 where "ETP_FW_ID_QUERY = 0x00"
definition ETP_SAMPLE_QUERY :: UInt8 where "ETP_SAMPLE_QUERY = 0x03"
definition ETP_EDGE_FUZZ_V1 :: UInt32 where "ETP_EDGE_FUZZ_V1 = 32"
definition ETP_XMIN_V1 :: UInt32 where "ETP_XMIN_V1 = 0 + ETP_EDGE_FUZZ_V1"
definition ETP_XMAX_V1 :: UInt32 where "ETP_XMAX_V1 = 576 - ETP_EDGE_FUZZ_V1"
definition ETP_YMIN_V1 :: UInt32 where "ETP_YMIN_V1 = 0 + ETP_EDGE_FUZZ_V1"
definition ETP_YMAX_V1 :: UInt32 where "ETP_YMAX_V1 = 384 - ETP_EDGE_FUZZ_V1"
definition ETP_XMIN_V2 :: UInt32 where "ETP_XMIN_V2 = 0"
definition ETP_XMAX_V2 :: UInt32 where "ETP_XMAX_V2 = 1152"
definition ETP_YMIN_V2 :: UInt32 where "ETP_YMIN_V2 = 0"
definition ETP_YMAX_V2 :: UInt32 where "ETP_YMAX_V2 = 768"

record ranges =
  rg_x_min :: UInt32
  rg_y_min :: UInt32
  rg_x_max :: UInt32
  rg_y_max :: UInt32
  rg_width :: UInt32

definition c_int_div :: "int \<Rightarrow> int \<Rightarrow> int" where
  "c_int_div a b = sgn a * sgn b * (\<bar>a\<bar> div \<bar>b\<bar>)"

definition elantech_set_range ::
    "ps2_consts \<Rightarrow> elantech_data \<Rightarrow> PS2Request option \<times> UInt8 list
       \<Rightarrow> PS2Request option \<times> UInt8 list \<Rightarrow> ps2_bus \<Rightarrow> ranges \<Rightarrow> int \<times> ranges \<times> ps2_bus" where
  "elantech_set_range K etd q1 q2 bus rg =
     (if hw_version etd = 1 then
        (0, rg\<lparr>rg_x_min := ETP_XMIN_V1, rg_y_min := ETP_YMIN_V1,
                rg_x_max := ETP_XMAX_V1, rg_y_max := ETP_YMAX_V1\<rparr>, bus)
      else if hw_version etd = 2 then
        (if fw_version etd = 0x020800 \<or> fw_version etd = 0x020b00 \<or> fw_version etd = 0x020030
         then (0, rg\<lparr>rg_x_min := ETP_XMIN_V2, rg_y_min := ETP_YMIN_V2,
                      rg_x_max := ETP_XMAX_V2, rg_y_max := ETP_YMAX_V2\<rparr>, bus)
         else
           (let i = (if fw_version etd > 0x020800 \<and> fw_version etd < 0x020900
                     then 1 else 2 :: int)
            in case send_cmd_by_flag K (fst q1) (snd q1) ETP_FW_ID_QUERY [0, 0, 0] (send_cmd etd) bus of
                 (rc1, param, bus1) \<Rightarrow>
                   if rc1 \<noteq> 0 then (- 1, rg, bus1)
                   else
                     (let fixed_dpi = param ! 1 AND 0x10
                      in if drop_bit 16 (fw_version etd) = 0x14 \<and> fixed_dpi \<noteq> 0 then
                           (case send_cmd_by_flag K (fst q2) (snd q2) ETP_SAMPLE_QUERY param
                                   (send_cmd etd) bus1 of
                              (rc2, param2, bus2) \<Rightarrow>
                                if rc2 \<noteq> 0 then (- 1, rg, bus2)
                                else
                                  (0, rg\<lparr>rg_x_max := word_of_int
                                           (c_int_div ((uint (capabilities etd ! 1) - i)
                                                         * uint (param2 ! 1)) 2),
                                         rg_y_max := word_of_int
                                           (c_int_div ((uint (capabilities etd ! 2) - i)
                                                         * uint (param2 ! 2)) 2)\<rparr>, bus2))
                         else if fw_version etd = 0x040216 then
                           (0, rg\<lparr>rg_x_max := 819, rg_y_max := 405\<rparr>, bus1)
                         else if fw_version etd = 0x040219 \<or> fw_version etd = 0x040215 then
                           (0, rg\<lparr>rg_x_max := 900, rg_y_max := 500\<rparr>, bus1)
                         else
                           (0, rg\<lparr>rg_x_max := word_of_int
                                    ((uint (capabilities etd ! 1) - i) * 64),
                                  rg_y_max := word_of_int
                                    ((uint (capabilities etd ! 2) - i) * 64)\<rparr>, bus1))))
      else if hw_version etd = 3 then
        (case send_cmd_by_flag K (fst q1) (snd q1) ETP_FW_ID_QUERY [0, 0, 0] (send_cmd etd) bus of
           (rc1, param, bus1) \<Rightarrow>
             if rc1 \<noteq> 0 then (- 1, rg, bus1)
             else (0, rg\<lparr>rg_x_max := push_bit 8 (ucast (0x0f AND param ! 0)) OR ucast (param ! 1),
                          rg_y_max := push_bit 4 (ucast (0xf0 AND param ! 0)) OR ucast (param ! 2)\<rparr>,
                   bus1))
      else if hw_version etd = 4 then
        (case send_cmd_by_flag K (fst q1) (snd q1) ETP_FW_ID_QUERY [0, 0, 0] (send_cmd etd) bus of
           (rc1, param, bus1) \<Rightarrow>
             if rc1 \<noteq> 0 then (- 1, rg, bus1)
             else
               (let rg1 = rg\<lparr>rg_x_max := push_bit 8 (ucast (0x0f AND param ! 0))
                                              OR ucast (param ! 1),
                              rg_y_max := push_bit 4 (ucast (0xf0 AND param ! 0))
                                              OR ucast (param ! 2)\<rparr>;
                    traces = capabilities etd ! 1
                in if traces < 2 \<or> ucast traces > rg_x_max rg1 then (- 1, rg1, bus1)
                   else (0, rg1\<lparr>rg_width := rg_x_max rg1 div (ucast traces - 1)\<rparr>, bus1)))
      else (0, rg, bus))"


section \<open>Decoder state and the byte-arrival path\<close>

text \<open>
  A call of \<open>dispatchRelativePointerEvent(dx, dy, buttons, now)\<close>; the arguments
  \<open>dx\<close> and \<open>dy\<close> are C \<open>int\<close>s, read with \<open>sint\<close>.  The time stamp is left out.
\<close>

record pointer_event =
  ev_dx :: "32 word"
  ev_dy :: "32 word"
  ev_buttons :: UInt32

text \<open>
  The fields of \<open>ApplePS2ElanTrackpad\<close> that the decoder uses, and the list of the
  pointer events it has dispatched so far.
\<close>

record trackpad =
  packetBuffer :: "UInt8 list"
  packetByteCount :: UInt32
  etd :: elantech_data
  pktsize :: UInt8
  last_fingers :: UInt32
  tapToClick :: bool
  tapInRange :: "bool list"
  lastPoint :: IOGPoint
  validLastPoint :: bool
  startPoint :: "IOGPoint list"
  validStartPoint :: "bool list"
  events :: "pointer_event list"

definition dispatchRelativePointerEvent ::
    "32 word \<Rightarrow> 32 word \<Rightarrow> UInt32 \<Rightarrow> trackpad \<Rightarrow> trackpad" where
  "dispatchRelativePointerEvent dx dy buttons s =
     s\<lparr>events := events s @ [\<lparr>ev_dx = dx, ev_dy = dy, ev_buttons = buttons\<rparr>]\<rparr>"

text \<open>
  The coordinates of a packet: \<open>((packet[1] & 0x0f) << 8) | packet[2]\<close> and
  \<open>etd->y_max - (((packet[4] & 0x0f) << 8) | packet[5])\<close>, both \<open>unsigned int\<close>.
\<close>

definition decode_x :: "UInt8 list \<Rightarrow> UInt32" where
  "decode_x packet = push_bit 8 (ucast (packet ! 1 AND 0x0f)) OR ucast (packet ! 2)"

definition decode_y :: "elantech_data \<Rightarrow> UInt8 list \<Rightarrow> UInt32" where
  "decode_y e packet =
     y_max e - (push_bit 8 (ucast (packet ! 4 AND 0x0f)) OR ucast (packet ! 5))"

text \<open>
  The test on \<open>x_diff\<close> and \<open>y_diff\<close>, both \<open>int\<close>, against
  \<open>ETP_TAPTOCLICK_DIST\<close>.
\<close>

definition out_of_tap_range :: "32 word \<Rightarrow> 32 word \<Rightarrow> bool" where
  "out_of_tap_range x_diff y_diff =
     (x_diff <s - ETP_TAPTOCLICK_DIST \<or> ETP_TAPTOCLICK_DIST <s x_diff
      \<or> y_diff <s - ETP_TAPTOCLICK_DIST \<or> ETP_TAPTOCLICK_DIST <s y_diff)"

text \<open>
  The start point block, which the source repeats for slot 0 of a one-finger packet
  (lines 855 to 881), slot 0 of a head packet (lines 899 to 925) and slot 1 of a tail
  packet (lines 939 to 965).  \<open>guard\<close> is the condition of the inner \<open>if\<close>: the
  two-finger blocks test \<open>tapInRange[n]\<close>, the one-finger block tests the array
  \<open>tapInRange\<close> itself, which is always true.
\<close>

definition track_tap :: "nat \<Rightarrow> bool \<Rightarrow> UInt32 \<Rightarrow> UInt32 \<Rightarrow> trackpad \<Rightarrow> trackpad" where
  "track_tap n guard xn yn s =
     (let s1 =
            (if validStartPoint s ! n then
               (if guard then
                  (let x_diff = xn - scast (pt_x (startPoint s ! n));
                       y_diff = yn - scast (pt_y (startPoint s ! n));
                       s2 = (if out_of_tap_range x_diff y_diff
                             then s\<lparr>tapInRange := (tapInRange s)[n := False]\<rparr> else s)
                   in if \<not> tapInRange s2 ! n then s2\<lparr>tapToClick := False\<rparr> else s2)
                else s)
             else s)
      in if \<not> validStartPoint s1 ! n
         then s1\<lparr>startPoint := (startPoint s1)[n := \<lparr>pt_x = ucast xn, pt_y = ucast yn\<rparr>],
                 validStartPoint := (validStartPoint s1)[n := True]\<rparr>
         else s1)"

text \<open>\<open>case 0\<close> of the switch on the finger count, in three steps.\<close>

definition synthesize_click :: "UInt32 \<Rightarrow> trackpad \<Rightarrow> UInt32 \<times> trackpad" where
  "synthesize_click buttons s =
     (if tapToClick s \<and> last_fingers s \<le> 2 \<and> last_fingers s > 0
      then ((if last_fingers s = 1 then buttons OR 0x1
             else if last_fingers s = 2 then buttons OR 0x2 else buttons),
            s\<lparr>tapToClick := False\<rparr>)
      else (buttons, s))"

definition reset_tracking :: "trackpad \<Rightarrow> trackpad" where
  "reset_tracking s =
     (let s1 = s\<lparr>validLastPoint := False\<rparr>;
          s2 = fold (\<lambda>i t. t\<lparr>validStartPoint := (validStartPoint t)[i := False],
                               tapInRange := (tapInRange t)[i := True]\<rparr>)
                 [0..<ETP_MAX_FINGERS] s1
      in s2\<lparr>tapToClick := True\<rparr>)"

definition report_release :: "UInt32 \<Rightarrow> trackpad \<Rightarrow> trackpad" where
  "report_release buttons s =
     (case synthesize_click buttons s of
        (buttons', s1) \<Rightarrow> reset_tracking (dispatchRelativePointerEvent 0 0 buttons' s1))"

text \<open>\<open>case 1\<close>.\<close>

definition report_one_finger :: "UInt8 list \<Rightarrow> UInt32 \<Rightarrow> trackpad \<Rightarrow> trackpad" where
  "report_one_finger packet buttons s =
     (let x1 = decode_x packet;
          y1 = decode_y (etd s) packet
      in if x1 \<noteq> 0 \<and> y1 \<noteq> 0 then
           (let s1 = (if validLastPoint s
                      then dispatchRelativePointerEvent
                             (x1 - scast (pt_x (lastPoint s))) (y1 - scast (pt_y (lastPoint s)))
                             buttons s
                      else s);
                s2 = s1\<lparr>lastPoint := \<lparr>pt_x = ucast x1, pt_y = ucast y1\<rparr>,
                         validLastPoint := True\<rparr>
            in track_tap 0 True x1 y1 s2)
         else s)"

text \<open>\<open>case 2\<close>: a head packet, and any other packet (a tail packet).\<close>

definition report_head :: "UInt8 list \<Rightarrow> trackpad \<Rightarrow> trackpad" where
  "report_head packet s =
     (let x1 = decode_x packet;
          y1 = decode_y (etd s) packet;
          s1 = (if x1 \<noteq> 0 \<and> y1 \<noteq> 0 then track_tap 0 (tapInRange s ! 0) x1 y1 s else s)
      in s1\<lparr>etd := (etd s1)\<lparr>mt := (mt (etd s1))[0 := \<lparr>pt_x = ucast x1, pt_y = ucast y1\<rparr>]\<rparr>\<rparr>)"

definition report_tail :: "UInt8 list \<Rightarrow> trackpad \<Rightarrow> trackpad" where
  "report_tail packet s =
     (let x2 = decode_x packet;
          y2 = decode_y (etd s) packet
      in if x2 \<noteq> 0 \<and> y2 \<noteq> 0 then track_tap 1 (tapInRange s ! 1) x2 y2 s else s)"

text \<open>
  The finger count \<open>(packet[0] & 0xc0) >> 6\<close> and the button bits of a packet, as
  \<open>elantech_report_absolute_v3\<close> computes them first.
\<close>

definition packet_fingers :: "UInt8 list \<Rightarrow> UInt32" where
  "packet_fingers packet = drop_bit 6 (ucast (packet ! 0 AND 0xc0))"

definition packet_buttons :: "UInt8 list \<Rightarrow> UInt32" where
  "packet_buttons packet =
     (let buttons = (0 :: UInt32);
          buttons = (if packet ! 0 AND 0x1 \<noteq> 0 then buttons OR 0x1 else buttons);
          buttons = (if packet ! 0 AND 0x2 \<noteq> 0 then buttons OR 0x2 else buttons)
      in buttons)"

text \<open>
  \<open>elantech_report_absolute_v3\<close>.  The locals \<open>pres\<close> and \<open>width\<close> are only logged and
  are left out, like the log calls and the time stamp.
\<close>

definition elantech_report_absolute_v3 ::
    "UInt8 list \<Rightarrow> UInt32 \<Rightarrow> int \<Rightarrow> trackpad \<Rightarrow> trackpad" where
  "elantech_report_absolute_v3 packet packetSize packet_type s =
     (let fingers = packet_fingers packet;
          buttons = packet_buttons packet;
          s1 = (if fingers = 0 then report_release buttons s
                else if fingers = 3 then s
                else if fingers = 1 then report_one_finger packet buttons s
                else if fingers = 2 then
                  (if packet_type = PACKET_V3_HEAD then report_head packet s
                   else report_tail packet s)
                else s)
      in s1\<lparr>last_fingers := fingers, packetByteCount := 0\<rparr>)"

text \<open>
  \<open>interruptOccurred\<close>.  The packet buffer has six entries; storing a byte at an index
  outside it is the fault \<open>BufferOverrun\<close>.  \<open>elantech_packet_dump\<close> only counts its
  calls and is left out.
\<close>

datatype fault = BufferOverrun

definition interruptOccurred :: "UInt8 \<Rightarrow> trackpad \<Rightarrow> fault + trackpad" where
  "interruptOccurred data s =
     (if unat (packetByteCount s) < length (packetBuffer s) then
        (let s1 = s\<lparr>packetBuffer := (packetBuffer s)[unat (packetByteCount s) := data],
                    packetByteCount := packetByteCount s + 1\<rparr>
         in if packetByteCount s1 = ucast (pktsize s1) then
              (if hw_version (etd s1) = 1 then Inr s1
               else if hw_version (etd s1) = 2 then Inr s1
               else if hw_version (etd s1) = 3 then
                 (let packet_type = elantech_packet_check_v3 (etd s1) (packetBuffer s1)
                  in if packet_type \<noteq> PACKET_DEBOUNCE \<and> packet_type \<noteq> PACKET_UNKNOWN
                     then Inr (elantech_report_absolute_v3 (packetBuffer s1)
                                 (ucast (pktsize s1)) packet_type s1)
                     else Inr s1)
               else if hw_version (etd s1) = 4 then Inr s1
               else Inr s1)
            else Inr s1)
      else Inl BufferOverrun)"

text \<open>The bus layer calls \<open>interruptOccurred\<close> once for every byte that arrives.\<close>

fun interrupts :: "UInt8 list \<Rightarrow> trackpad \<Rightarrow> fault + trackpad" where
  "interrupts [] s = Inr s"
| "interrupts (b # bs) s =
     (case interruptOccurred b s of Inl e \<Rightarrow> Inl e | Inr s' \<Rightarrow> interrupts bs s')"

section \<open>Reference definitions for the claims\<close>

text \<open>
  The generation the specification assigns to a firmware version: generation 1 below
  0x020030 and at 0x020600, otherwise by the nibble \<open>(version >> 16) & 0x0F\<close>;
  \<open>None\<close> is the unknown hardware error.
\<close>

definition spec_generation :: "UInt32 \<Rightarrow> UInt8 option" where
  "spec_generation v =
     (let nib = drop_bit 16 v AND 0x0F
      in if v < 0x020030 \<or> v = 0x020600 then Some 1
         else if nib = 2 \<or> nib = 4 then Some 2
         else if nib = 5 then Some 3
         else if nib = 6 then Some 4
         else None)"

text \<open>The firmware version \<open>probe\<close> assembles from the three reply bytes.\<close>

definition version_of :: "UInt8 \<Rightarrow> UInt8 \<Rightarrow> UInt8 \<Rightarrow> UInt32" where
  "version_of b0 b1 b2 = push_bit 16 (ucast b0) OR push_bit 8 (ucast b1) OR ucast b2"

text \<open>A device data block before detection: every field zero, no parity entry written.\<close>

definition etd_unset :: elantech_data where
  "etd_unset =
     \<lparr>reg_07 = 0, reg_10 = 0, reg_11 = 0, reg_20 = 0, reg_21 = 0, reg_22 = 0, reg_23 = 0,
      reg_24 = 0, reg_25 = 0, reg_26 = 0, debug = 0, capabilities = [0, 0, 0],
      paritycheck = False, jumpy_cursor = False, reports_pressure = False, hw_version = 0,
      fw_version = 0, single_finger_reports = 0, y_max = 0, width = 0,
      mt = replicate 5 \<lparr>pt_x = 0, pt_y = 0\<rparr>, parity = parity_unset, send_cmd = False\<rparr>"

text \<open>A detection run in which everything before the version resolver succeeds.\<close>

definition env_version :: "UInt8 \<Rightarrow> UInt8 \<Rightarrow> UInt8 \<Rightarrow> probe_env" where
  "env_version b0 b1 b2 =
     \<lparr>super_probe_ok = True, alloc_knock = True, alloc_spare = True, alloc_query = True,
      knock = [0x3c, 0x03, 0xc8], version_reply = Some [b0, b1, b2]\<rparr>"

text \<open>The parity of a byte value as the table holds it: 1 for an even number of one bits.\<close>

definition parity_of :: "nat \<Rightarrow> UInt8" where
  "parity_of i = (if even (popcount i) then 1 else 0)"

text \<open>A register the specification accepts: from 0x07 to 0x26, outside 0x12 to 0x1f.\<close>

definition valid_register :: "UInt8 \<Rightarrow> bool" where
  "valid_register reg = (\<not> (reg < 0x07 \<or> reg > 0x26 \<or> (0x11 < reg \<and> reg < 0x20)))"

text \<open>
  Bus operations: send a command byte and expect the acknowledgement, and read one
  byte from the data port.
\<close>

definition send_op :: "UInt8 \<Rightarrow> PS2Command" where
  "send_op v = \<lparr>command = kPS2C_SendMouseCommandAndCompareAck, inOrOut = v\<rparr>"

definition read_op :: PS2Command where
  "read_op = \<lparr>command = kPS2C_ReadDataPort, inOrOut = 0\<rparr>"

text \<open>The first \<open>j\<close> entries of a request.\<close>

definition written :: "PS2Request \<Rightarrow> nat \<Rightarrow> PS2Command list" where
  "written request j = map (commands request) [0..<j]"

text \<open>The 2-bit group of an opcode that starts at bit \<open>i\<close>.\<close>

definition two_bit_group :: "UInt8 \<Rightarrow> nat \<Rightarrow> UInt8" where
  "two_bit_group c i = of_nat ((unat c div 2 ^ i) mod 4)"

text \<open>
  The sliced encoding of an opcode: one scaling reset, then for each 2-bit group, from
  bits 7-6 down to bits 1-0, a set-resolution command and the value of the group.
\<close>

definition sliced_encoding :: "ps2_consts \<Rightarrow> UInt8 \<Rightarrow> PS2Command list" where
  "sliced_encoding K c =
     send_op (kDP_SetMouseScaling1To1 K)
     # concat (map (\<lambda>i. [send_op (kDP_SetMouseResolution K), send_op (two_bit_group c i)])
                [6, 4, 2, 0])"

text \<open>
  The sliced encoding as claim C9 words it: for each 2-bit group a scaling reset
  followed by a set-resolution command and the value of the group.
\<close>

definition sliced_as_claimed :: "ps2_consts \<Rightarrow> UInt8 \<Rightarrow> PS2Command list" where
  "sliced_as_claimed K c =
     concat (map (\<lambda>i. [send_op (kDP_SetMouseScaling1To1 K),
                        send_op (kDP_SetMouseResolution K), send_op (two_bit_group c i)])
               [6, 4, 2, 0])"

text \<open>The custom-command encoding: the vendor opcode 0xF8 before every byte.\<close>

definition custom_encoding :: "UInt8 list \<Rightarrow> PS2Command list" where
  "custom_encoding bytes = concat (map (\<lambda>b. [send_op 0xF8, send_op b]) bytes)"

text \<open>
  The operations of a register write and of a register read, by generation: sliced for
  generation 1, custom commands from generation 2 on.
\<close>

definition write_reg_encoding :: "ps2_consts \<Rightarrow> UInt8 \<Rightarrow> UInt8 \<Rightarrow> UInt8 \<Rightarrow> PS2Command list" where
  "write_reg_encoding K hw reg val =
     (if hw = 1 then sliced_encoding K 0x11 @ sliced_encoding K reg @ sliced_encoding K val
      else if hw = 2 then custom_encoding [0x11, reg, val]
      else if hw = 3 then custom_encoding [0x00, reg, val]
      else custom_encoding [0x00, reg, 0x00, val])
     @ [send_op (kDP_SetMouseScaling1To1 K)]"

definition read_reg_encoding :: "ps2_consts \<Rightarrow> UInt8 \<Rightarrow> UInt8 \<Rightarrow> PS2Command list" where
  "read_reg_encoding K hw reg =
     (if hw = 1 then sliced_encoding K 0x10 @ sliced_encoding K reg
      else if hw = 2 then custom_encoding [0x10, reg]
      else custom_encoding [0x00, reg])
     @ [send_op (kDP_GetMouseInformation K), read_op, read_op, read_op]"

text \<open>
  The register write as claim C8 words it: custom commands from generation 3 on,
  sliced commands up to generation 2.
\<close>

definition write_reg_as_claimed :: "ps2_consts \<Rightarrow> UInt8 \<Rightarrow> UInt8 \<Rightarrow> UInt8 \<Rightarrow> PS2Command list" where
  "write_reg_as_claimed K hw reg val =
     (if hw \<ge> 3 then write_reg_encoding K hw reg val
      else sliced_encoding K 0x11 @ sliced_encoding K reg @ sliced_encoding K val
           @ [send_op (kDP_SetMouseScaling1To1 K)])"

text \<open>
  For the examples: the byte values the PS/2 protocol gives to the four commands, and
  a freshly allocated request.
\<close>

definition ps2_bytes :: ps2_consts where
  "ps2_bytes = \<lparr>kDP_SetMouseScaling1To1 = 0xE6, kDP_SetMouseResolution = 0xE8,
                 kDP_GetMouseInformation = 0xE9, kDP_SetAllMakeRelease = 0xF8\<rparr>"

definition request_zero :: PS2Request where
  "request_zero = \<lparr>commandsCount = 0, commands = (\<lambda>i. send_op 0)\<rparr>"

text \<open>
  The decoder fields as \<open>init\<close> and \<open>start\<close> leave them (lines 158, 534 to 540 and
  558 to 561) for the device data \<open>e\<close>; no byte has arrived, no event was dispatched.
\<close>

definition trackpad_started :: "elantech_data \<Rightarrow> trackpad" where
  "trackpad_started e =
     \<lparr>packetBuffer = replicate 6 0, packetByteCount = 0, etd = e,
      pktsize = (if hw_version e > 1 then 6 else 4), last_fingers = 0, tapToClick = True,
      tapInRange = replicate ETP_MAX_FINGERS True, lastPoint = \<lparr>pt_x = 0, pt_y = 0\<rparr>,
      validLastPoint = False, startPoint = replicate ETP_MAX_FINGERS \<lparr>pt_x = 0, pt_y = 0\<rparr>,
      validStartPoint = replicate ETP_MAX_FINGERS False, events = []\<rparr>"

text \<open>
  The coordinates of a packet as numbers: the 12-bit fields of bytes 1, 2 and 4, 5, and
  the sample they decode to for a given Y maximum.
\<close>

definition raw_x :: "UInt8 list \<Rightarrow> nat" where
  "raw_x packet = unat (packet ! 1) mod 16 * 256 + unat (packet ! 2)"

definition raw_y :: "UInt8 list \<Rightarrow> nat" where
  "raw_y packet = unat (packet ! 4) mod 16 * 256 + unat (packet ! 5)"

definition sample_x :: "UInt8 list \<Rightarrow> int" where
  "sample_x packet = int (raw_x packet)"

definition sample_y :: "UInt32 \<Rightarrow> UInt8 list \<Rightarrow> int" where
  "sample_y ym packet = int (unat ym) - int (raw_y packet)"

text \<open>A sample the decoder uses: both coordinates are non-zero.\<close>

definition valid_sample :: "UInt32 \<Rightarrow> UInt8 list \<Rightarrow> bool" where
  "valid_sample ym packet = (sample_x packet \<noteq> 0 \<and> sample_y ym packet \<noteq> 0)"

text \<open>A sample within 32 units of the sample \<open>p0\<close> in both axes.\<close>

definition within_tap :: "UInt32 \<Rightarrow> UInt8 list \<Rightarrow> UInt8 list \<Rightarrow> bool" where
  "within_tap ym p0 packet =
     (\<bar>sample_x packet - sample_x p0\<bar> \<le> 32 \<and> \<bar>sample_y ym packet - sample_y ym p0\<bar> \<le> 32)"

text \<open>
  The samples of one finger slot stay in tap range: the first sample with non-zero
  coordinates is the start point, and every later one is within 32 units of it.
\<close>

definition stays_in_tap_range :: "UInt32 \<Rightarrow> UInt8 list list \<Rightarrow> bool" where
  "stays_in_tap_range ym ps =
     (case filter (valid_sample ym) ps of
        [] \<Rightarrow> True
      | p0 # rest \<Rightarrow> list_all (within_tap ym p0) rest)"

text \<open>The verdict of the classifier, which does not look at the device data.\<close>

definition frame_type :: "UInt8 list \<Rightarrow> int" where
  "frame_type packet = elantech_packet_check_v3 etd_unset packet"

text \<open>
  The frames that feed finger slot 0 (one-finger packets and head packets) and those
  that feed slot 1.
\<close>

definition for_slot0 :: "UInt8 list \<Rightarrow> bool" where
  "for_slot0 packet = (packet_fingers packet = 1 \<or> frame_type packet = PACKET_V3_HEAD)"

definition tap_eligible :: "UInt32 \<Rightarrow> UInt8 list list \<Rightarrow> bool" where
  "tap_eligible ym fs =
     (stays_in_tap_range ym (filter for_slot0 fs)
      \<and> stays_in_tap_range ym (filter (\<lambda>p. \<not> for_slot0 p) fs))"

text \<open>
  A frame of a contact: six bytes that the classifier passes to the decoder, with one
  or two fingers.  A release frame: the same with no finger.
\<close>

definition contact_frame :: "UInt8 list \<Rightarrow> bool" where
  "contact_frame packet =
     (length packet = 6 \<and> (packet_fingers packet = 1 \<or> packet_fingers packet = 2)
      \<and> (frame_type packet = PACKET_V3_HEAD \<or> frame_type packet = PACKET_V3_TAIL))"

definition release_frame :: "UInt8 list \<Rightarrow> bool" where
  "release_frame packet =
     (length packet = 6 \<and> packet_fingers packet = 0
      \<and> (frame_type packet = PACKET_V3_HEAD \<or> frame_type packet = PACKET_V3_TAIL))"

text \<open>
  A generation 3 decoder between two frames, with the Y maximum in the 12-bit range
  that \<open>elantech_set_range\<close> gives it, and with no contact in progress.
\<close>

definition between_frames :: "trackpad \<Rightarrow> bool" where
  "between_frames s =
     (hw_version (etd s) = 3 \<and> pktsize s = 6 \<and> packetByteCount s = 0
      \<and> length (packetBuffer s) = 6 \<and> y_max (etd s) \<le> 0xFFF)"

definition no_contact :: "trackpad \<Rightarrow> bool" where
  "no_contact s =
     (tapToClick s \<and> tapInRange s = replicate 5 True
      \<and> validStartPoint s = replicate 5 False \<and> length (startPoint s) = 5)"

text \<open>
  What the decoder has latched for a finger slot: nothing, or the start point of the
  frame \<open>p0\<close>; and the tap state between two frames of a contact with the start
  frames \<open>c0\<close> and \<open>c1\<close>.
\<close>

definition slot_latched :: "UInt32 \<Rightarrow> UInt8 list option \<Rightarrow> nat \<Rightarrow> trackpad \<Rightarrow> bool" where
  "slot_latched ym c n s =
     (case c of
        None \<Rightarrow> \<not> validStartPoint s ! n
      | Some p0 \<Rightarrow> validStartPoint s ! n
          \<and> startPoint s ! n
              = \<lparr>pt_x = ucast (word_of_int (sample_x p0) :: 32 word),
                 pt_y = ucast (word_of_int (sample_y ym p0) :: 32 word)\<rparr>)"

definition tap_state :: "UInt32 \<Rightarrow> UInt8 list option \<Rightarrow> UInt8 list option \<Rightarrow> trackpad \<Rightarrow> bool" where
  "tap_state ym c0 c1 s =
     (y_max (etd s) = ym \<and> ym \<le> 0xFFF
      \<and> length (tapInRange s) = 5 \<and> length (validStartPoint s) = 5
      \<and> length (startPoint s) = 5
      \<and> slot_latched ym c0 0 s \<and> slot_latched ym c1 1 s
      \<and> (tapToClick s \<longrightarrow> tapInRange s ! 0 \<and> tapInRange s ! 1))"

text \<open>
  The start frames after a frame, and whether the frame keeps the contact eligible for
  a tap.
\<close>

definition latch :: "UInt32 \<Rightarrow> bool \<Rightarrow> UInt8 list option \<Rightarrow> UInt8 list \<Rightarrow> UInt8 list option" where
  "latch ym mine c p =
     (if mine \<and> valid_sample ym p then (case c of None \<Rightarrow> Some p | Some p0 \<Rightarrow> Some p0)
      else c)"

definition keeps_tap :: "UInt32 \<Rightarrow> bool \<Rightarrow> UInt8 list option \<Rightarrow> UInt8 list \<Rightarrow> bool" where
  "keeps_tap ym mine c p =
     (if mine \<and> valid_sample ym p then (case c of None \<Rightarrow> True | Some p0 \<Rightarrow> within_tap ym p0 p)
      else True)"

fun tap_run :: "UInt32 \<Rightarrow> UInt8 list option \<Rightarrow> UInt8 list option \<Rightarrow> UInt8 list list \<Rightarrow> bool" where
  "tap_run ym c0 c1 [] = True"
| "tap_run ym c0 c1 (p # fs) =
     (keeps_tap ym (for_slot0 p) c0 p \<and> keeps_tap ym (\<not> for_slot0 p) c1 p
      \<and> tap_run ym (latch ym (for_slot0 p) c0 p) (latch ym (\<not> for_slot0 p) c1 p) fs)"

text \<open>The samples of a slot stay in range of a start frame already latched, or of their first.\<close>

definition stays_from :: "UInt32 \<Rightarrow> UInt8 list option \<Rightarrow> UInt8 list list \<Rightarrow> bool" where
  "stays_from ym c ps =
     (case c of
        None \<Rightarrow> stays_in_tap_range ym ps
      | Some p0 \<Rightarrow> list_all (within_tap ym p0) (filter (valid_sample ym) ps))"

text \<open>
  For the examples: a generation 3 pad with the Y maximum 500 as \<open>start\<close> leaves it,
  one-finger head frames at the raw positions (100, 400), (0, 400), (110, 395) and
  (200, 400), which decode to (100, 100), (0, 100), (110, 105) and (200, 100), a
  two-finger head and tail frame, and a release frame with no button pressed.
\<close>

definition pad500 :: trackpad where
  "pad500 = trackpad_started (etd_unset\<lparr>hw_version := 3, y_max := 500\<rparr>)"

definition frame_100_100 :: "UInt8 list" where
  "frame_100_100 = [0x44, 0x00, 0x64, 0x02, 0x01, 0x90]"

definition frame_0_100 :: "UInt8 list" where
  "frame_0_100 = [0x44, 0x00, 0x00, 0x02, 0x01, 0x90]"

definition frame_110_105 :: "UInt8 list" where
  "frame_110_105 = [0x44, 0x00, 0x6E, 0x02, 0x01, 0x8B]"

definition frame_200_100 :: "UInt8 list" where
  "frame_200_100 = [0x44, 0x00, 0xC8, 0x02, 0x01, 0x90]"

definition frame_two_head :: "UInt8 list" where
  "frame_two_head = [0x84, 0x00, 0x64, 0x02, 0x01, 0x90]"

definition frame_two_tail :: "UInt8 list" where
  "frame_two_tail = [0x8C, 0x01, 0x2C, 0x0C, 0x01, 0x90]"

definition frame_release :: "UInt8 list" where
  "frame_release = [0x04, 0x00, 0x00, 0x02, 0x00, 0x00]"

section \<open>The packet classifier\<close>

text \<open>
  C3.  For every 6-byte frame the classifier answers Debounce for the frame
  C4 FF FF 02 FF FF, which is tested first; otherwise Head when
  \<open>(byte0 & 0x0C) = 0x04\<close> and \<open>(byte3 & 0xCF) = 0x02\<close>; otherwise Tail when
  \<open>(byte0 & 0x0C) = 0x0C\<close> and \<open>(byte3 & 0xCE) = 0x0C\<close>; otherwise Unknown.  The
  debounce frame satisfies the Head bit masks and is still classified Debounce, which
  is a verdict different from Head and Tail.
\<close>

theorem C3_packet_check_v3:
  assumes "length packet = 6"
  shows "elantech_packet_check_v3 e packet =
           (if packet = [0xC4, 0xFF, 0xFF, 0x02, 0xFF, 0xFF] then PACKET_DEBOUNCE
            else if packet ! 0 AND 0x0C = 0x04 \<and> packet ! 3 AND 0xCF = 0x02
            then PACKET_V3_HEAD
            else if packet ! 0 AND 0x0C = 0x0C \<and> packet ! 3 AND 0xCE = 0x0C
            then PACKET_V3_TAIL
            else PACKET_UNKNOWN)
         \<and> debounce_packet ! 0 AND 0x0C = 0x04 \<and> debounce_packet ! 3 AND 0xCF = 0x02
         \<and> elantech_packet_check_v3 e debounce_packet = PACKET_DEBOUNCE
         \<and> PACKET_DEBOUNCE \<noteq> PACKET_V3_HEAD \<and> PACKET_DEBOUNCE \<noteq> PACKET_V3_TAIL"
  using assms
  by (simp add: elantech_packet_check_v3_def debounce_packet_def PACKET_DEBOUNCE_def
      PACKET_V3_HEAD_def PACKET_V3_TAIL_def)

theorem C3_packet_check_v3_witness:
  "elantech_packet_check_v3 etd_unset [0xC4, 0xFF, 0xFF, 0x02, 0xFF, 0xFF] = PACKET_DEBOUNCE
   \<and> elantech_packet_check_v3 etd_unset [0x44, 0x01, 0x23, 0x02, 0x00, 0x10] = PACKET_V3_HEAD
   \<and> elantech_packet_check_v3 etd_unset [0x8C, 0x01, 0x23, 0x0C, 0x00, 0x10] = PACKET_V3_TAIL
   \<and> elantech_packet_check_v3 etd_unset [0x40, 0x01, 0x23, 0x02, 0x00, 0x10] = PACKET_UNKNOWN"
  using C3_packet_check_v3 [of "[0xC4, 0xFF, 0xFF, 0x02, 0xFF, 0xFF]" etd_unset]
    C3_packet_check_v3 [of "[0x44, 0x01, 0x23, 0x02, 0x00, 0x10]" etd_unset]
    C3_packet_check_v3 [of "[0x8C, 0x01, 0x23, 0x0C, 0x00, 0x10]" etd_unset]
    C3_packet_check_v3 [of "[0x40, 0x01, 0x23, 0x02, 0x00, 0x10]" etd_unset]
  by simp

section \<open>The rules of the version resolver\<close>

lemma mid_nibble: "drop_bit 16 ((v::32 word) AND 0x0f0000) = drop_bit 16 v AND 0x0F"
proof -
  have "(0x0f0000 :: 32 word) = push_bit 16 0x0F" by simp
  then show ?thesis
    by (simp only: drop_bit_and) (simp add: drop_bit_and)
qed

lemma flags_rc: "fst (set_properties_flags e) = 0"
  by (simp add: set_properties_flags_def Let_def)

lemma flags_hw: "hw_version (snd (set_properties_flags e)) = hw_version e"
  by (simp add: set_properties_flags_def Let_def)

lemma flags_fw: "fw_version (snd (set_properties_flags e)) = fw_version e"
  by (simp add: set_properties_flags_def Let_def)

lemma set_properties_generation:
  "(case spec_generation (fw_version e) of
      Some g \<Rightarrow> fst (elantech_set_properties e) = 0
                \<and> hw_version (snd (elantech_set_properties e)) = g
                \<and> fw_version (snd (elantech_set_properties e)) = fw_version e
    | None \<Rightarrow> elantech_set_properties e = (- 1, e))"
  by (simp add: elantech_set_properties_def spec_generation_def Let_def mid_nibble
      flags_rc flags_hw flags_fw)

lemma probe_reaches_resolver:
  assumes "elantech_is_signature_valid [b0, b1, b2]"
    and "parity_build (parity e) = Some tab"
  shows "probe (env_version b0 b1 b2) e =
     (case elantech_set_properties (e\<lparr>parity := tab, fw_version := version_of b0 b1 b2\<rparr>) of
        (rc, e') \<Rightarrow> if rc \<noteq> 0 then Inl UnknownHardware else Inr e')"
  using assms by (simp add: probe_def env_version_def version_of_def Let_def)

section \<open>Detection: the parity table and the version resolver\<close>

lemma nat_and_le_right: "(m::nat) AND n \<le> n"
proof -
  have "int m AND int n \<le> int n" by (rule AND_upper2) simp
  then have "int (m AND n) \<le> int n" by (simp add: of_nat_and_eq)
  then show ?thesis by simp
qed

lemma and_pred_less: "0 < (i::nat) \<Longrightarrow> i AND (i - 1) < i"
  using nat_and_le_right [of i "i - 1"] by arith

lemma popcount_0: "popcount 0 = 0"
  by (subst popcount.simps) simp

lemma popcount_double: "popcount (2 * n) = popcount n"
  using popcount.simps [of "2 * n"] popcount.simps [of 0] by (cases "n = 0") simp_all

lemma popcount_double1: "popcount (2 * n + 1) = popcount n + 1"
  using popcount.simps [of "2 * n + 1"] by simp

lemma popcount_and_pred: "0 < i \<Longrightarrow> popcount (i AND (i - 1)) + 1 = popcount i"
proof (induction i rule: less_induct)
  case (less i)
  show ?case
  proof (cases "even i")
    case True
    then obtain k where k: "i = 2 * k" by (auto elim: evenE)
    with less.prems have kpos: "0 < k" by simp
    have "i - 1 = 2 * (k - 1) + 1" using k kpos by simp
    then have "i AND (i - 1) = 2 * (k AND (k - 1))"
      using k by (subst and_rec) simp
    moreover have "popcount (k AND (k - 1)) + 1 = popcount k"
      using less.IH [of k] k kpos by simp
    ultimately show ?thesis using k by (simp add: popcount_double)
  next
    case False
    then obtain k where k: "i = 2 * k + 1" by (auto elim: oddE)
    have "i AND (i - 1) = 2 * k"
      using k by (subst and_rec) simp
    then show ?thesis using k popcount_double1 [of k] by (simp add: popcount_double)
  qed
qed

lemma parity_of_step:
  assumes "0 < i"
  shows "parity_of (i AND (i - 1)) XOR 1 = parity_of i"
proof -
  have "popcount i = Suc (popcount (i AND (i - 1)))"
    using popcount_and_pred [OF assms] by simp
  then show ?thesis by (simp add: parity_of_def)
qed

lemma parity_loop_inv:
  assumes "length tab = 256" "0 < i" "i \<le> 256" "\<forall>j<i. tab ! j = Some (parity_of j)"
  shows "\<exists>tab'. parity_loop i tab = Some tab' \<and> length tab' = 256 \<and>
           (\<forall>j<256. tab' ! j = Some (parity_of j))"
  using assms
proof (induction i tab rule: parity_loop.induct)
  case (1 i tab)
  show ?case
  proof (cases "i < 256")
    case False
    with 1 have "i = 256" by simp
    with 1 show ?thesis by (simp add: parity_loop.simps)
  next
    case True
    let ?k = "i AND (i - 1)"
    have kl: "?k < i" using 1 and_pred_less by simp
    then have rd: "parity_read tab ?k = Some (parity_of ?k)"
      using 1 True by (simp add: parity_read_def)
    let ?tab = "tab[i := Some (parity_of ?k XOR 1)]"
    have inv: "\<forall>j<i + 1. ?tab ! j = Some (parity_of j)"
    proof (intro allI impI)
      fix j assume "j < i + 1"
      show "?tab ! j = Some (parity_of j)"
      proof (cases "j = i")
        case True
        then show ?thesis using 1(2) \<open>i < 256\<close> parity_of_step [OF 1(3)] by simp
      next
        case False
        with \<open>j < i + 1\<close> have "j < i" by simp
        with 1(5) False show ?thesis by simp
      qed
    qed
    have "\<exists>tab'. parity_loop (i + 1) ?tab = Some tab' \<and> length tab' = 256 \<and>
           (\<forall>j<256. tab' ! j = Some (parity_of j))"
      using 1(1) [OF True rd] 1(2) True inv by simp
    then show ?thesis using True rd by (subst parity_loop.simps) simp
  qed
qed

lemma parity_build_ok:
  assumes "length tab = 256"
  shows "\<exists>tab'. parity_build tab = Some tab' \<and> length tab' = 256 \<and>
           (\<forall>j<256. tab' ! j = Some (parity_of j))"
proof -
  have "\<forall>j<1. (tab[0 := Some 1]) ! j = Some (parity_of j)"
    using assms by (simp add: parity_of_def popcount_0)
  then show ?thesis
    unfolding parity_build_def using assms by (intro parity_loop_inv) simp_all
qed

lemma popcount_7: "popcount 7 = 3"
  by (simp add: popcount.simps)

text \<open>
  C4.  The resolver returns 0 and sets the generation the specification names
  (generation 1 below 0x020030 and at 0x020600, otherwise 2 for the nibbles 2 and 4,
  3 for 5, 4 for 6), and returns -1 with the device data untouched for any other
  nibble.  A detection run that reaches the resolver with the version bytes
  \<open>b0 b1 b2\<close> succeeds with that generation, or fails with the unknown hardware error.
\<close>

theorem C4_version_resolver:
  assumes "elantech_is_signature_valid [b0, b1, b2]"
    and "length (parity e) = 256"
  shows "(case spec_generation (fw_version e0) of
            Some g \<Rightarrow> fst (elantech_set_properties e0) = 0
                      \<and> hw_version (snd (elantech_set_properties e0)) = g
          | None \<Rightarrow> elantech_set_properties e0 = (- 1, e0))
       \<and> (case spec_generation (version_of b0 b1 b2) of
            Some g \<Rightarrow> (\<exists>e'. probe (env_version b0 b1 b2) e = Inr e' \<and> hw_version e' = g
                            \<and> fw_version e' = version_of b0 b1 b2)
          | None \<Rightarrow> probe (env_version b0 b1 b2) e = Inl UnknownHardware)"
proof
  show "case spec_generation (fw_version e0) of
            Some g \<Rightarrow> fst (elantech_set_properties e0) = 0
                      \<and> hw_version (snd (elantech_set_properties e0)) = g
          | None \<Rightarrow> elantech_set_properties e0 = (- 1, e0)"
    using set_properties_generation [of e0] by (simp split: option.splits)
next
  obtain tab where tab: "parity_build (parity e) = Some tab"
    using parity_build_ok [OF assms(2)] by blast
  let ?e = "e\<lparr>parity := tab, fw_version := version_of b0 b1 b2\<rparr>"
  have p: "probe (env_version b0 b1 b2) e =
     (case elantech_set_properties ?e of
        (rc, e') \<Rightarrow> if rc \<noteq> 0 then Inl UnknownHardware else Inr e')"
    by (rule probe_reaches_resolver [OF assms(1) tab])
  show "case spec_generation (version_of b0 b1 b2) of
            Some g \<Rightarrow> (\<exists>e'. probe (env_version b0 b1 b2) e = Inr e' \<and> hw_version e' = g
                            \<and> fw_version e' = version_of b0 b1 b2)
          | None \<Rightarrow> probe (env_version b0 b1 b2) e = Inl UnknownHardware"
  proof (cases "spec_generation (version_of b0 b1 b2)")
    case None
    then have "elantech_set_properties ?e = (- 1, ?e)"
      using set_properties_generation [of ?e] by simp
    with None p show ?thesis by simp
  next
    case (Some g)
    then have "fst (elantech_set_properties ?e) = 0
        \<and> hw_version (snd (elantech_set_properties ?e)) = g
        \<and> fw_version (snd (elantech_set_properties ?e)) = version_of b0 b1 b2"
      using set_properties_generation [of ?e] by simp
    with Some p show ?thesis by (simp add: case_prod_beta)
  qed
qed

theorem C4_version_resolver_witness:
  "elantech_set_properties (etd_unset\<lparr>fw_version := 0x030000\<rparr>)
     = (- 1, etd_unset\<lparr>fw_version := 0x030000\<rparr>)
   \<and> hw_version (snd (elantech_set_properties (etd_unset\<lparr>fw_version := 0x010000\<rparr>))) = 1
   \<and> hw_version (snd (elantech_set_properties (etd_unset\<lparr>fw_version := 0x020030\<rparr>))) = 2
   \<and> hw_version (snd (elantech_set_properties (etd_unset\<lparr>fw_version := 0x050000\<rparr>))) = 3
   \<and> probe (env_version 0x03 0x00 0x00) etd_unset = Inl UnknownHardware
   \<and> (\<exists>e'. probe (env_version 0x06 0x00 0x00) etd_unset = Inr e' \<and> hw_version e' = 4)"
proof -
  have sig: "elantech_is_signature_valid [0x03, 0x00, 0x00]"
      "elantech_is_signature_valid [0x06, 0x00, 0x00]"
    by (simp_all add: elantech_is_signature_valid_def)
  have len: "length (parity etd_unset) = 256"
    by (simp add: etd_unset_def parity_unset_def)
  have gen: "spec_generation 0x030000 = None" "spec_generation 0x010000 = Some 1"
      "spec_generation 0x020030 = Some 2" "spec_generation 0x050000 = Some 3"
      "spec_generation 0x060000 = Some 4"
    by (simp_all add: spec_generation_def)
  have ver: "version_of 0x03 0x00 0x00 = 0x030000" "version_of 0x06 0x00 0x00 = 0x060000"
    by (simp_all add: version_of_def)
  show ?thesis
    using C4_version_resolver [OF sig(1) len, of "etd_unset\<lparr>fw_version := 0x030000\<rparr>"]
      C4_version_resolver [OF sig(1) len, of "etd_unset\<lparr>fw_version := 0x010000\<rparr>"]
      C4_version_resolver [OF sig(1) len, of "etd_unset\<lparr>fw_version := 0x020030\<rparr>"]
      C4_version_resolver [OF sig(1) len, of "etd_unset\<lparr>fw_version := 0x050000\<rparr>"]
      C4_version_resolver [OF sig(2) len, of "etd_unset"]
    by (auto simp add: gen ver)
qed

text \<open>
  C5, as amended.  Whatever the table held before, the construction ends with a table
  whose entry \<open>i\<close>, for every \<open>i\<close> from 0 to 255, is \<open>(popcount i + 1) mod 2\<close>: 1 when
  \<open>i\<close> has an even number of one bits and 0 when the number is odd.
\<close>

theorem C5_parity_table:
  assumes "length tab0 = 256" and "i < 256"
  shows "\<exists>tab. parity_build tab0 = Some tab
           \<and> tab ! i = Some (of_nat ((popcount i + 1) mod 2))"
proof -
  obtain tab where tab: "parity_build tab0 = Some tab"
      "\<forall>j<256. tab ! j = Some (parity_of j)"
    using parity_build_ok [OF assms(1)] by blast
  have "parity_of i = of_nat ((popcount i + 1) mod 2)"
    by (cases "even (popcount i)") (simp_all add: parity_of_def mod_Suc even_iff_mod_2_eq_zero)
  with tab assms(2) show ?thesis by simp
qed

theorem C5_parity_table_witness:
  "\<exists>tab. parity_build parity_unset = Some tab \<and> tab ! 7 = Some 0"
  using C5_parity_table [of parity_unset 7]
  by (simp add: parity_unset_def popcount_7)

text \<open>
  C5 as stated fails: entry 0 of the table is 1, and \<open>popcount 0 mod 2\<close> is 0.
\<close>

theorem C5_parity_table_counterexample:
  "\<exists>tab. parity_build parity_unset = Some tab \<and> tab ! 0 = Some 1
     \<and> tab ! 0 \<noteq> Some (of_nat (popcount 0 mod 2))"
proof -
  obtain tab where tab: "parity_build parity_unset = Some tab"
      "\<forall>j<256. tab ! j = Some (parity_of j)"
    using parity_build_ok [of parity_unset] by (auto simp: parity_unset_def)
  then have "tab ! 0 = Some 1" by (simp add: parity_of_def popcount_0)
  with tab(1) show ?thesis by (simp add: popcount_0)
qed

text \<open>
  C10.  For every \<open>i\<close> from 1 to 255 the index \<open>i & (i - 1)\<close> is smaller than \<open>i\<close>;
  entry 0 is written before the loop; and the construction, started on a table in
  which no entry has been written, never reads an unwritten entry (it ends with a
  table rather than with \<open>None\<close>) and leaves all 256 entries written.
\<close>

theorem C10_parity_construction:
  "(\<forall>i::nat. 1 \<le> i \<and> i \<le> 255 \<longrightarrow> i AND (i - 1) < i)
   \<and> parity_read (parity_unset[0 := Some 1]) 0 = Some 1
   \<and> (\<exists>tab. parity_build parity_unset = Some tab \<and> length tab = 256
         \<and> (\<forall>j<256. parity_read tab j \<noteq> None))"
proof (intro conjI)
  show "\<forall>i::nat. 1 \<le> i \<and> i \<le> 255 \<longrightarrow> i AND (i - 1) < i"
    using and_pred_less by simp
  show "parity_read (parity_unset[0 := Some 1]) 0 = Some 1"
    by (simp add: parity_read_def parity_unset_def)
  obtain tab where tab: "parity_build parity_unset = Some tab" "length tab = 256"
      "\<forall>j<256. tab ! j = Some (parity_of j)"
    using parity_build_ok [of parity_unset] by (auto simp: parity_unset_def)
  then show "\<exists>tab. parity_build parity_unset = Some tab \<and> length tab = 256
         \<and> (\<forall>j<256. parity_read tab j \<noteq> None)"
    by (simp add: parity_read_def)
qed

theorem C10_parity_construction_witness:
  "(6::nat) AND (6 - 1) < 6
   \<and> (\<exists>tab. parity_build parity_unset = Some tab \<and> length tab = 256
         \<and> parity_read tab 255 \<noteq> None)"
proof -
  have "(6::nat) AND (6 - 1) < 6"
    using C10_parity_construction by simp
  moreover have "\<exists>tab. parity_build parity_unset = Some tab \<and> length tab = 256
         \<and> parity_read tab 255 \<noteq> None"
    using C10_parity_construction by auto
  ultimately show ?thesis by simp
qed


section \<open>The command codec\<close>

lemma nat_and_3: "(n::nat) AND 3 = n mod 4"
proof -
  have "n AND mask 2 = n mod 2 ^ 2"
    by (simp add: take_bit_eq_mod flip: take_bit_eq_mask)
  moreover have "mask 2 = (3::nat)" by (simp add: mask_eq_exp_minus_1)
  ultimately show ?thesis by simp
qed

lemma slice_eq:
  "(ucast (drop_bit i (ucast (c::8 word) :: 32 word) AND 3) :: 8 word) = two_bit_group c i"
proof -
  have c: "take_bit 32 (unat c) = unat c"
    using unsigned_less [of c, where 'a = nat] by (simp add: take_bit_nat_eq_self)
  have "unat (drop_bit i (ucast c :: 32 word) AND 3) = drop_bit i (unat c) AND 3"
    by (simp add: unsigned_and_eq unat_drop_bit_eq unsigned_ucast_eq c)
  also have "\<dots> = (unat c div 2 ^ i) mod 4"
    by (simp add: nat_and_3 drop_bit_eq_div)
  finally have "drop_bit i (ucast c :: 32 word) AND 3 = of_nat ((unat c div 2 ^ i) mod 4)"
    by (simp add: word_unat_eq_iff unat_of_nat)
  then show ?thesis
    by (simp add: two_bit_group_def word_unat_eq_iff unat_of_nat unsigned_ucast_eq
        take_bit_eq_mod)
qed

lemma put_index: "put_command cv (r, j) = (r', j') \<Longrightarrow> j' = j + 1"
  by (auto simp add: put_command_def)

lemma written_put:
  "put_command cv (r, j) = (r', j') \<Longrightarrow>
     written r' (j + 1) = written r j @ [\<lparr>command = fst cv, inOrOut = snd cv\<rparr>]"
  by (auto simp add: put_command_def set_command_def written_def)

lemma fold_put_index: "fold put_command cvs (r, j) = (r', j') \<Longrightarrow> j' = j + length cvs"
proof (induction cvs arbitrary: r j)
  case Nil
  then show ?case by simp
next
  case (Cons cv cvs)
  obtain r1 where r1: "put_command cv (r, j) = (r1, j + 1)"
    by (simp add: put_command_def)
  from Cons.prems r1 have "fold put_command cvs (r1, j + 1) = (r', j')" by simp
  from Cons.IH [OF this] show ?case by simp
qed

lemma written_fold_put:
  "fold put_command cvs (r, j) = (r', j') \<Longrightarrow>
     written r' (j + length cvs)
       = written r j @ map (\<lambda>cv. \<lparr>command = fst cv, inOrOut = snd cv\<rparr>) cvs"
proof (induction cvs arbitrary: r j)
  case Nil
  then show ?case by simp
next
  case (Cons cv cvs)
  obtain r1 where r1: "put_command cv (r, j) = (r1, j + 1)"
    by (simp add: put_command_def)
  from Cons.prems r1 have "fold put_command cvs (r1, j + 1) = (r', j')" by simp
  from Cons.IH [OF this] written_put [OF r1] show ?case by simp
qed

lemma written_fold_put_n:
  assumes "fold put_command cvs (r, j) = (r', j')" and "length cvs = n"
  shows "j' = j + n"
    and "written r' (j + n)
           = written r j @ map (\<lambda>cv. \<lparr>command = fst cv, inOrOut = snd cv\<rparr>) cvs"
  using fold_put_index [OF assms(1)] written_fold_put [OF assms(1)] assms(2) by simp_all

lemma sliced_loop_puts:
  "sliced_loop K 6 cmd (r, j) =
     (case fold put_command
             [send_entry (kDP_SetMouseResolution K), send_entry (ucast (drop_bit 6 cmd AND 3)),
              send_entry (kDP_SetMouseResolution K), send_entry (ucast (drop_bit 4 cmd AND 3)),
              send_entry (kDP_SetMouseResolution K), send_entry (ucast (drop_bit 2 cmd AND 3)),
              send_entry (kDP_SetMouseResolution K), send_entry (ucast (drop_bit 0 cmd AND 3))]
             (r, j + 1) of
        (r', j') \<Rightarrow> (r', j' - 1))"
  by (simp add: sliced_loop.simps put_command_def send_entry_def Let_def)

lemma sliced_command_result:
  assumes "psmouse_sliced_command K r j (ucast c) = (rc, r', j')"
  shows "rc = 0" and "j' = j + 8"
    and "written r' (j + 9) = written r j @ sliced_encoding K c"
proof -
  let ?r1 = "set_command j kPS2C_SendMouseCommandAndCompareAck (kDP_SetMouseScaling1To1 K) r"
  let ?cvs = "[send_entry (kDP_SetMouseResolution K), send_entry (two_bit_group c 6),
              send_entry (kDP_SetMouseResolution K), send_entry (two_bit_group c 4),
              send_entry (kDP_SetMouseResolution K), send_entry (two_bit_group c 2),
              send_entry (kDP_SetMouseResolution K), send_entry (two_bit_group c 0)]"
  have p1: "put_command (send_entry (kDP_SetMouseScaling1To1 K)) (r, j) = (?r1, j + 1)"
    by (simp add: put_command_def send_entry_def)
  obtain r2 j2 where f: "fold put_command ?cvs (?r1, j + 1) = (r2, j2)"
    by (cases "fold put_command ?cvs (?r1, j + 1)")
  have j2: "j2 = j + 9"
    using fold_put_index [OF f] by simp
  have "sliced_loop K 6 (ucast c) (?r1, j) = (r2, j2 - 1)"
    using f by (simp only: sliced_loop_puts slice_eq) simp
  with assms have eqs: "rc = 0" "r' = r2" "j' = j2 - 1"
    by (simp_all add: psmouse_sliced_command_def Let_def)
  from eqs j2 show "rc = 0" and "j' = j + 8" by simp_all
  have idx: "j + 1 + length ?cvs = j + 9" by simp
  have "written r2 (j + 1 + length ?cvs)
          = written ?r1 (j + 1) @ map (\<lambda>cv. \<lparr>command = fst cv, inOrOut = snd cv\<rparr>) ?cvs"
    by (rule written_fold_put [OF f])
  then have "written r2 (j + 9)
          = written ?r1 (j + 1) @ map (\<lambda>cv. \<lparr>command = fst cv, inOrOut = snd cv\<rparr>) ?cvs"
    by (simp only: idx)
  also have "written ?r1 (j + 1)
          = written r j @ [send_op (kDP_SetMouseScaling1To1 K)]"
    using written_put [OF p1] by (simp add: send_op_def send_entry_def)
  finally have "written r2 (j + 9) = written r j @ sliced_encoding K c"
    by (simp add: sliced_encoding_def send_op_def send_entry_def)
  then show "written r' (j + 9) = written r j @ sliced_encoding K c"
    using eqs by simp
qed

lemma issued_written: "issued (r\<lparr>commandsCount := j\<rparr>) = written r j"
  by (simp add: issued_def written_def)

lemma submit_bus:
  "snd (submitRequestAndBlock reply (r\<lparr>commandsCount := j\<rparr>) bus) = bus @ [written r j]"
  by (simp add: submitRequestAndBlock_def issued_written)

lemma written_0: "written r 0 = []"
  by (simp add: written_def)

lemma write_reg_rejects:
  "\<not> valid_register reg \<Longrightarrow> elantech_write_reg K e alloc reg val bus = (- 1, bus)"
  by (auto simp add: valid_register_def elantech_write_reg_def)

lemma read_reg_rejects:
  "\<not> valid_register reg \<Longrightarrow> elantech_read_reg K e alloc reply reg bus = (- 1, None, bus)"
  by (auto simp add: valid_register_def elantech_read_reg_def)

lemma write_reg_v1:
  assumes "valid_register reg" and "hw_version e = 1"
  shows "elantech_write_reg K e (Some r) reg val bus =
           (0, bus @ [write_reg_encoding K 1 reg val])"
proof -
  obtain rc1 r1 j1 where s1:
    "psmouse_sliced_command K r 0 (ucast ETP_REGISTER_WRITE) = (rc1, r1, j1)"
    by (cases "psmouse_sliced_command K r 0 (ucast ETP_REGISTER_WRITE)")
  obtain rc2 r2 j2 where s2: "psmouse_sliced_command K r1 (j1 + 1) (ucast reg) = (rc2, r2, j2)"
    by (cases "psmouse_sliced_command K r1 (j1 + 1) (ucast reg)")
  obtain rc3 r3 j3 where s3: "psmouse_sliced_command K r2 (j2 + 1) (ucast val) = (rc3, r3, j3)"
    by (cases "psmouse_sliced_command K r2 (j2 + 1) (ucast val)")
  obtain r4 j4 where s4:
    "put_command (send_entry (kDP_SetMouseScaling1To1 K)) (r3, j3 + 1) = (r4, j4)"
    by (cases "put_command (send_entry (kDP_SetMouseScaling1To1 K)) (r3, j3 + 1)")
  have j: "j1 = 8" "j2 = 17" "j3 = 26" "j4 = 28"
    using sliced_command_result(2) [OF s1] sliced_command_result(2) [OF s2]
      sliced_command_result(2) [OF s3] put_index [OF s4] by simp_all
  have "written r1 9 = sliced_encoding K 0x11"
    using sliced_command_result(3) [OF s1] by (simp add: written_0 ETP_REGISTER_WRITE_def)
  moreover have "written r2 18 = written r1 9 @ sliced_encoding K reg"
    using sliced_command_result(3) [OF s2] j by simp
  moreover have "written r3 27 = written r2 18 @ sliced_encoding K val"
    using sliced_command_result(3) [OF s3] j by simp
  moreover have "written r4 28 = written r3 27 @ [send_op (kDP_SetMouseScaling1To1 K)]"
    using written_put [OF s4] j by (simp add: send_entry_def send_op_def)
  ultimately have w: "written r4 j4 = write_reg_encoding K 1 reg val"
    using j by (simp add: write_reg_encoding_def)
  show ?thesis
    using assms s1 s2 s3 s4 w
    by (simp add: elantech_write_reg_def valid_register_def submit_bus)
qed

lemma write_reg_custom:
  assumes "valid_register reg" and "hw_version e = 2 \<or> hw_version e = 3 \<or> hw_version e = 4"
  shows "elantech_write_reg K e (Some r) reg val bus =
           (0, bus @ [write_reg_encoding K (hw_version e) reg val])"
proof -
  have *: "\<And>cvs. (case fold put_command cvs (r, 0) of
              (r1, j) \<Rightarrow> (0::int, snd (submitRequestAndBlock [] (r1\<lparr>commandsCount := j\<rparr>) bus)))
            = (0, bus @ [map (\<lambda>cv. \<lparr>command = fst cv, inOrOut = snd cv\<rparr>) cvs])"
  proof -
    fix cvs
    obtain r1 j where f: "fold put_command cvs (r, 0) = (r1, j)"
      by (cases "fold put_command cvs (r, 0)")
    from written_fold_put [OF f] fold_put_index [OF f] f
    show "(case fold put_command cvs (r, 0) of
              (r1, j) \<Rightarrow> (0::int, snd (submitRequestAndBlock [] (r1\<lparr>commandsCount := j\<rparr>) bus)))
            = (0, bus @ [map (\<lambda>cv. \<lparr>command = fst cv, inOrOut = snd cv\<rparr>) cvs])"
      by (simp add: submit_bus written_0)
  qed
  from assms show ?thesis
    unfolding elantech_write_reg_def
    by (auto simp add: valid_register_def * write_reg_encoding_def custom_encoding_def
        send_entry_def send_op_def ETP_PS2_CUSTOM_COMMAND_def ETP_REGISTER_WRITE_def
        ETP_REGISTER_READWRITE_def simp del: fold.simps)
qed

lemma fill_reads_sends:
  "\<forall>c\<in>set pre. command c = kPS2C_SendMouseCommandAndCompareAck \<Longrightarrow>
     fill_reads rs (pre @ cs) = pre @ fill_reads rs cs"
  by (induction pre) simp_all

lemma sliced_encoding_sends:
  "\<forall>c\<in>set (sliced_encoding K b). command c = kPS2C_SendMouseCommandAndCompareAck"
  by (simp add: sliced_encoding_def send_op_def)

lemma custom_encoding_sends:
  "\<forall>c\<in>set (custom_encoding bs). command c = kPS2C_SendMouseCommandAndCompareAck"
  by (auto simp add: custom_encoding_def send_op_def)

lemma length_sliced_encoding: "length (sliced_encoding K c) = 9"
  by (simp add: sliced_encoding_def)

lemma length_custom_encoding: "length (custom_encoding bs) = 2 * length bs"
  by (induction bs) (simp_all add: custom_encoding_def)

text \<open>The operations the switch of \<open>elantech_read_reg\<close> writes.\<close>

lemma read_reg_switch_written:
  assumes "hw_version e = 1 \<or> hw_version e = 2 \<or> hw_version e = 3 \<or> hw_version e = 4"
    and "read_reg_switch K e r reg = (r0, j0)"
  shows "written r0 j0 @ [send_op (kDP_GetMouseInformation K), read_op, read_op, read_op]
           = read_reg_encoding K (hw_version e) reg"
    and "j0 = (if hw_version e = 1 then 18 else 4)"
proof -
  have "written r0 j0 @ [send_op (kDP_GetMouseInformation K), read_op, read_op, read_op]
           = read_reg_encoding K (hw_version e) reg
        \<and> j0 = (if hw_version e = 1 then 18 else 4)"
  proof (cases "hw_version e = 1")
    case True
    obtain rc1 r1 j1 where s1:
      "psmouse_sliced_command K r 0 (ucast ETP_REGISTER_READ) = (rc1, r1, j1)"
      by (cases "psmouse_sliced_command K r 0 (ucast ETP_REGISTER_READ)")
    obtain rc2 r2 j2 where s2: "psmouse_sliced_command K r1 (j1 + 1) (ucast reg) = (rc2, r2, j2)"
      by (cases "psmouse_sliced_command K r1 (j1 + 1) (ucast reg)")
    have j: "j1 = 8" "j2 = 17"
      using sliced_command_result(2) [OF s1] sliced_command_result(2) [OF s2] by simp_all
    have "written r1 9 = sliced_encoding K 0x10"
      using sliced_command_result(3) [OF s1] by (simp add: written_0 ETP_REGISTER_READ_def)
    moreover have "written r2 18 = written r1 9 @ sliced_encoding K reg"
      using sliced_command_result(3) [OF s2] j by simp
    moreover have "r0 = r2" "j0 = 18"
      using assms(2) True s1 s2 j by (simp_all add: read_reg_switch_def)
    ultimately show ?thesis
      using True by (simp add: read_reg_encoding_def)
  next
    case False
    let ?sub = "if hw_version e = 2 then ETP_REGISTER_READ else ETP_REGISTER_READWRITE"
    let ?cvs = "[send_entry ETP_PS2_CUSTOM_COMMAND, send_entry ?sub,
                 send_entry ETP_PS2_CUSTOM_COMMAND, send_entry reg]"
    have f: "fold put_command ?cvs (r, 0) = (r0, j0)"
      using assms False by (auto simp add: read_reg_switch_def simp del: fold.simps)
    have "j0 = 4" using written_fold_put_n(1) [OF f, where n = 4] by simp
    moreover have "written r0 (0 + 4)
        = written r 0 @ map (\<lambda>cv. \<lparr>command = fst cv, inOrOut = snd cv\<rparr>) ?cvs"
      by (rule written_fold_put_n(2) [OF f]) simp
    ultimately show ?thesis
      using assms(1) False
      by (auto simp add: read_reg_encoding_def custom_encoding_def written_0 send_entry_def
          send_op_def ETP_PS2_CUSTOM_COMMAND_def ETP_REGISTER_READ_def
          ETP_REGISTER_READWRITE_def)
  qed
  then show "written r0 j0 @ [send_op (kDP_GetMouseInformation K), read_op, read_op, read_op]
           = read_reg_encoding K (hw_version e) reg"
    and "j0 = (if hw_version e = 1 then 18 else 4)" by blast+
qed

lemma read_reg_prefix_sends:
  assumes "hw_version e = 1 \<or> hw_version e = 2 \<or> hw_version e = 3 \<or> hw_version e = 4"
    and "read_reg_switch K e r reg = (r0, j0)"
  shows "\<forall>c\<in>set (written r0 j0). command c = kPS2C_SendMouseCommandAndCompareAck"
proof -
  have "written r0 j0 @ [send_op (kDP_GetMouseInformation K), read_op, read_op, read_op]
          = read_reg_encoding K (hw_version e) reg"
    by (rule read_reg_switch_written(1) [OF assms])
  then have "written r0 j0 =
      (if hw_version e = 1 then sliced_encoding K 0x10 @ sliced_encoding K reg
       else if hw_version e = 2 then custom_encoding [0x10, reg]
       else custom_encoding [0x00, reg])"
    by (simp add: read_reg_encoding_def)
  then show ?thesis
    using sliced_encoding_sends [of K "0x10"] sliced_encoding_sends [of K reg]
      custom_encoding_sends [of "[0x10, reg]"] custom_encoding_sends [of "[0x00, reg]"]
    by (auto split: if_splits)
qed

lemma read_reg_accepts:
  assumes "valid_register reg"
    and hw: "hw_version e = 1 \<or> hw_version e = 2 \<or> hw_version e = 3 \<or> hw_version e = 4"
  shows "elantech_read_reg K e (Some r) [p0, p1, p2] reg bus =
           (0, Some (if hw_version e \<noteq> 4 then p0 else p1),
            bus @ [read_reg_encoding K (hw_version e) reg])"
proof -
  obtain r0 j0 where sw: "read_reg_switch K e r reg = (r0, j0)"
    by (cases "read_reg_switch K e r reg")
  let ?cvs = "[send_entry (kDP_GetMouseInformation K), read_entry, read_entry, read_entry]"
  obtain r1 j where f: "fold put_command ?cvs (r0, j0) = (r1, j)"
    by (cases "fold put_command ?cvs (r0, j0)")
  have j: "j = j0 + 4" using written_fold_put_n(1) [OF f, where n = 4] by simp
  have "written r1 (j0 + 4)
          = written r0 j0 @ map (\<lambda>cv. \<lparr>command = fst cv, inOrOut = snd cv\<rparr>) ?cvs"
    by (rule written_fold_put_n(2) [OF f]) simp
  then have w: "written r1 j
          = written r0 j0 @ [send_op (kDP_GetMouseInformation K), read_op, read_op, read_op]"
    using j by (simp add: send_entry_def read_entry_def send_op_def read_op_def)
  have enc: "written r1 j = read_reg_encoding K (hw_version e) reg"
    using w read_reg_switch_written(1) [OF hw sw] by simp
  have len: "length (written r0 j0) = j0" by (simp add: written_def)
  have w4: "written r1 (j0 + 4)
          = written r0 j0 @ [send_op (kDP_GetMouseInformation K), read_op, read_op, read_op]"
    using w j by simp
  have fill: "fill_reads [p0, p1, p2] (written r1 (j0 + 4))
          = written r0 j0 @ [send_op (kDP_GetMouseInformation K), read_op\<lparr>inOrOut := p0\<rparr>,
               read_op\<lparr>inOrOut := p1\<rparr>, read_op\<lparr>inOrOut := p2\<rparr>]"
    using fill_reads_sends [OF read_reg_prefix_sends [OF hw sw]]
    by (simp add: w4 send_op_def read_op_def)
  obtain r2 bus' where sub:
    "submitRequestAndBlock [p0, p1, p2] (r1\<lparr>commandsCount := j\<rparr>) bus = (r2, bus')"
    by (cases "submitRequestAndBlock [p0, p1, p2] (r1\<lparr>commandsCount := j\<rparr>) bus")
  then have bus': "bus' = bus @ [written r1 j]"
    using submit_bus [where reply = "[p0, p1, p2]" and r = r1 and j = j and bus = bus] by simp
  have cmds: "\<And>i. i < j0 + 4 \<Longrightarrow>
      commands r2 i = fill_reads [p0, p1, p2] (written r1 (j0 + 4)) ! i"
    using sub j by (auto simp add: submitRequestAndBlock_def issued_written)
  have "commands r2 (j0 + 1) = read_op\<lparr>inOrOut := p0\<rparr>"
    using cmds [of "j0 + 1"] len by (simp add: fill nth_append)
  moreover have "commands r2 (j0 + 2) = read_op\<lparr>inOrOut := p1\<rparr>"
    using cmds [of "j0 + 2"] len by (simp add: fill nth_append)
  moreover have "j - 3 = j0 + 1" "j - 2 = j0 + 2" using j by simp_all
  ultimately have "inOrOut (commands r2 (j - 3)) = p0" "inOrOut (commands r2 (j - 2)) = p1"
    by simp_all
  then show ?thesis
    using assms(1) sw f sub bus' enc
    by (simp add: elantech_read_reg_def valid_register_def Let_def del: fold.simps)
qed

lemma write_reg_accepts:
  assumes "valid_register reg"
    and "hw_version e = 1 \<or> hw_version e = 2 \<or> hw_version e = 3 \<or> hw_version e = 4"
  shows "elantech_write_reg K e (Some r) reg val bus =
           (0, bus @ [write_reg_encoding K (hw_version e) reg val])"
  using assms write_reg_v1 [of reg e K r val bus] write_reg_custom [of reg e K r val bus]
  by auto

lemma length_write_reg_encoding:
  "length (write_reg_encoding K hw reg val) =
     (if hw = 1 then 28 else if hw = 2 \<or> hw = 3 then 7 else 9)"
  by (simp add: write_reg_encoding_def length_sliced_encoding length_custom_encoding)

lemma base4_digits:
  assumes "(n::nat) < 256"
  shows "n = 64 * (n div 64 mod 4) + 16 * (n div 16 mod 4) + 4 * (n div 4 mod 4) + n mod 4"
proof -
  have a: "n = 4 * (n div 4) + n mod 4" by simp
  have b: "n div 4 = 4 * (n div 16) + n div 4 mod 4"
    using div_mult_mod_eq [of "n div 4" 4] by (simp add: div_mult2_eq [symmetric])
  have c: "n div 16 = 4 * (n div 64) + n div 16 mod 4"
    using div_mult_mod_eq [of "n div 16" 4] by (simp add: div_mult2_eq [symmetric])
  have d: "n div 64 mod 4 = n div 64" using assms by simp
  from a b c d show ?thesis by linarith
qed

lemma unat_two_bit_group: "unat (two_bit_group c i) = unat c div 2 ^ i mod 4"
proof -
  have "unat c div 2 ^ i mod 4 < 256"
    by (rule less_trans [of _ 4]) simp_all
  then show ?thesis by (simp add: two_bit_group_def unat_of_nat)
qed

lemma two_bit_groups_sum:
  "unat c = 64 * unat (two_bit_group c 6) + 16 * unat (two_bit_group c 4)
              + 4 * unat (two_bit_group c 2) + unat (two_bit_group c 0)"
proof -
  have c: "unat c < 256" using unsigned_less [of c, where 'a = nat] by simp
  have g: "unat (two_bit_group c 6) = unat c div 64 mod 4"
      "unat (two_bit_group c 4) = unat c div 16 mod 4"
      "unat (two_bit_group c 2) = unat c div 4 mod 4"
      "unat (two_bit_group c 0) = unat c mod 4"
    by (simp_all add: unat_two_bit_group)
  show ?thesis unfolding g by (rule base4_digits [OF c])
qed

text \<open>
  C7.  Both register operations reject a register below 0x07, above 0x26 or strictly
  between 0x11 and 0x20 with the code -1 and leave the bus as it was (no request is
  submitted).  An accepted register, with a request available and a hardware version
  from 1 to 4, makes both return 0 and submit exactly one request, which holds the
  operation sequence of that hardware version: for a write the sub-opcode, the
  register and the value, sliced for version 1 and each after the vendor opcode 0xF8
  for versions 2, 3 and 4, and then a scaling reset; for a read the sub-opcode and the
  register in the same encoding, and then the query-info command and three port reads,
  of which the first byte (the second for version 4) is the value returned.  Writing
  the registers 0x06 and 0x15 is rejected with the bus as it was, and writing the
  register 0x10 submits the sequence of the hardware version.
\<close>

theorem C7_register_bounds:
  "(reg < 0x07 \<or> reg > 0x26 \<or> (0x11 < reg \<and> reg < 0x20) \<longrightarrow>
        elantech_write_reg K e alloc reg val bus = (- 1, bus)
      \<and> elantech_read_reg K e alloc reply reg bus = (- 1, None, bus))
   \<and> (\<not> (reg < 0x07 \<or> reg > 0x26 \<or> (0x11 < reg \<and> reg < 0x20))
        \<and> (hw_version e = 1 \<or> hw_version e = 2 \<or> hw_version e = 3 \<or> hw_version e = 4) \<longrightarrow>
        elantech_write_reg K e (Some r) reg val bus
          = (0, bus @ [(if hw_version e = 1
                        then sliced_encoding K 0x11 @ sliced_encoding K reg
                             @ sliced_encoding K val
                        else if hw_version e = 2
                        then [send_op 0xF8, send_op 0x11, send_op 0xF8, send_op reg,
                              send_op 0xF8, send_op val]
                        else if hw_version e = 3
                        then [send_op 0xF8, send_op 0x00, send_op 0xF8, send_op reg,
                              send_op 0xF8, send_op val]
                        else [send_op 0xF8, send_op 0x00, send_op 0xF8, send_op reg,
                              send_op 0xF8, send_op 0x00, send_op 0xF8, send_op val])
                       @ [send_op (kDP_SetMouseScaling1To1 K)]])
      \<and> elantech_read_reg K e (Some r) [p0, p1, p2] reg bus
          = (0, Some (if hw_version e \<noteq> 4 then p0 else p1),
             bus @ [(if hw_version e = 1
                     then sliced_encoding K 0x10 @ sliced_encoding K reg
                     else if hw_version e = 2
                     then [send_op 0xF8, send_op 0x10, send_op 0xF8, send_op reg]
                     else [send_op 0xF8, send_op 0x00, send_op 0xF8, send_op reg])
                    @ [send_op (kDP_GetMouseInformation K), read_op, read_op, read_op]]))
   \<and> elantech_write_reg K e alloc 0x06 val bus = (- 1, bus)
   \<and> elantech_write_reg K e alloc 0x15 val bus = (- 1, bus)
   \<and> (hw_version e = 1 \<or> hw_version e = 2 \<or> hw_version e = 3 \<or> hw_version e = 4 \<longrightarrow>
        elantech_write_reg K e (Some r) 0x10 val bus
          = (0, bus @ [write_reg_encoding K (hw_version e) 0x10 val]))"
proof (intro conjI impI)
  assume "reg < 0x07 \<or> reg > 0x26 \<or> (0x11 < reg \<and> reg < 0x20)"
  then have nv: "\<not> valid_register reg" by (simp add: valid_register_def)
  show "elantech_write_reg K e alloc reg val bus = (- 1, bus)"
    by (rule write_reg_rejects [OF nv])
  show "elantech_read_reg K e alloc reply reg bus = (- 1, None, bus)"
    by (rule read_reg_rejects [OF nv])
next
  assume a: "\<not> (reg < 0x07 \<or> reg > 0x26 \<or> (0x11 < reg \<and> reg < 0x20))
        \<and> (hw_version e = 1 \<or> hw_version e = 2 \<or> hw_version e = 3 \<or> hw_version e = 4)"
  then have v: "valid_register reg" by (simp add: valid_register_def)
  from a have hw: "hw_version e = 1 \<or> hw_version e = 2 \<or> hw_version e = 3 \<or> hw_version e = 4"
    by simp
  show "elantech_write_reg K e (Some r) reg val bus
          = (0, bus @ [(if hw_version e = 1
                        then sliced_encoding K 0x11 @ sliced_encoding K reg
                             @ sliced_encoding K val
                        else if hw_version e = 2
                        then [send_op 0xF8, send_op 0x11, send_op 0xF8, send_op reg,
                              send_op 0xF8, send_op val]
                        else if hw_version e = 3
                        then [send_op 0xF8, send_op 0x00, send_op 0xF8, send_op reg,
                              send_op 0xF8, send_op val]
                        else [send_op 0xF8, send_op 0x00, send_op 0xF8, send_op reg,
                              send_op 0xF8, send_op 0x00, send_op 0xF8, send_op val])
                       @ [send_op (kDP_SetMouseScaling1To1 K)]])"
    unfolding write_reg_accepts [OF v hw]
    by (simp add: write_reg_encoding_def custom_encoding_def)
  show "elantech_read_reg K e (Some r) [p0, p1, p2] reg bus
          = (0, Some (if hw_version e \<noteq> 4 then p0 else p1),
             bus @ [(if hw_version e = 1
                     then sliced_encoding K 0x10 @ sliced_encoding K reg
                     else if hw_version e = 2
                     then [send_op 0xF8, send_op 0x10, send_op 0xF8, send_op reg]
                     else [send_op 0xF8, send_op 0x00, send_op 0xF8, send_op reg])
                    @ [send_op (kDP_GetMouseInformation K), read_op, read_op, read_op]])"
    unfolding read_reg_accepts [OF v hw]
    by (simp add: read_reg_encoding_def custom_encoding_def)
next
  show "elantech_write_reg K e alloc 0x06 val bus = (- 1, bus)"
    by (rule write_reg_rejects) (simp add: valid_register_def)
  show "elantech_write_reg K e alloc 0x15 val bus = (- 1, bus)"
    by (rule write_reg_rejects) (simp add: valid_register_def)
next
  assume hw: "hw_version e = 1 \<or> hw_version e = 2 \<or> hw_version e = 3 \<or> hw_version e = 4"
  have v: "valid_register 0x10" by (simp add: valid_register_def)
  show "elantech_write_reg K e (Some r) 0x10 val bus
          = (0, bus @ [write_reg_encoding K (hw_version e) 0x10 val])"
    by (rule write_reg_accepts [OF v hw])
qed

theorem C7_register_bounds_witness:
  "elantech_write_reg ps2_bytes (etd_unset\<lparr>hw_version := 3\<rparr>) (Some request_zero) 0x06 0x0b []
     = (- 1, [])
   \<and> elantech_read_reg ps2_bytes (etd_unset\<lparr>hw_version := 3\<rparr>) (Some request_zero)
        [0x0b, 0, 0] 0x15 [] = (- 1, None, [])
   \<and> elantech_write_reg ps2_bytes (etd_unset\<lparr>hw_version := 3\<rparr>) (Some request_zero)
        0x10 0x0b []
       = (0, [[send_op 0xF8, send_op 0x00, send_op 0xF8, send_op 0x10, send_op 0xF8,
               send_op 0x0b, send_op 0xE6]])
   \<and> elantech_read_reg ps2_bytes (etd_unset\<lparr>hw_version := 3\<rparr>) (Some request_zero)
        [0x0b, 0, 0] 0x10 []
       = (0, Some 0x0b, [[send_op 0xF8, send_op 0x00, send_op 0xF8, send_op 0x10,
                          send_op 0xE9, read_op, read_op, read_op]])
   \<and> elantech_read_reg ps2_bytes (etd_unset\<lparr>hw_version := 1\<rparr>) (Some request_zero)
        [0x16, 0, 0] 0x10 []
       = (0, Some 0x16,
          [[send_op 0xE6, send_op 0xE8, send_op 0, send_op 0xE8, send_op 1,
            send_op 0xE8, send_op 0, send_op 0xE8, send_op 0,
            send_op 0xE6, send_op 0xE8, send_op 0, send_op 0xE8, send_op 1,
            send_op 0xE8, send_op 0, send_op 0xE8, send_op 0,
            send_op 0xE9, read_op, read_op, read_op]])"
  using C7_register_bounds [of "0x06" ps2_bytes "etd_unset\<lparr>hw_version := 3\<rparr>"
      "Some request_zero" "0x0b" "[]" "[0x0b, 0, 0]" request_zero "0x0b" 0 0]
    C7_register_bounds [of "0x15" ps2_bytes "etd_unset\<lparr>hw_version := 3\<rparr>"
      "Some request_zero" "0x0b" "[]" "[0x0b, 0, 0]" request_zero "0x0b" 0 0]
    C7_register_bounds [of "0x10" ps2_bytes "etd_unset\<lparr>hw_version := 3\<rparr>"
      "Some request_zero" "0x0b" "[]" "[0x0b, 0, 0]" request_zero "0x0b" 0 0]
    C7_register_bounds [of "0x10" ps2_bytes "etd_unset\<lparr>hw_version := 1\<rparr>"
      "Some request_zero" "0x16" "[]" "[0x16, 0, 0]" request_zero "0x16" 0 0]
  by (simp add: etd_unset_def ps2_bytes_def sliced_encoding_def two_bit_group_def)

text \<open>
  C8, as amended.  For an accepted register and a request available, a register write
  and a register read of generation 1 submit the sliced encodings of the sub-opcode,
  the register and (for a write) the value; those of generations 2, 3 and 4 submit the
  custom-command encoding, with the vendor opcode 0xF8 before the sub-opcode, the
  register and the value.  A write ends with a scaling reset, a read with the
  query-info command and three port reads, whose first byte (the second for
  generation 4) is the value read.
\<close>

theorem C8_register_encoding:
  assumes "valid_register reg"
    and "hw_version e = 1 \<or> hw_version e = 2 \<or> hw_version e = 3 \<or> hw_version e = 4"
  shows "elantech_write_reg K e (Some r) reg val bus =
           (0, bus @ [write_reg_encoding K (hw_version e) reg val])
       \<and> elantech_read_reg K e (Some r) [p0, p1, p2] reg bus =
           (0, Some (if hw_version e \<noteq> 4 then p0 else p1),
            bus @ [read_reg_encoding K (hw_version e) reg])"
  using write_reg_accepts [OF assms] read_reg_accepts [OF assms] by simp

theorem C8_register_encoding_witness:
  "elantech_write_reg ps2_bytes (etd_unset\<lparr>hw_version := 2\<rparr>) (Some request_zero) 0x10 0x54 []
     = (0, [[send_op 0xF8, send_op 0x11, send_op 0xF8, send_op 0x10, send_op 0xF8,
             send_op 0x54, send_op 0xE6]])
   \<and> elantech_read_reg ps2_bytes (etd_unset\<lparr>hw_version := 2\<rparr>) (Some request_zero)
        [0x54, 0, 0] 0x10 []
     = (0, Some 0x54, [[send_op 0xF8, send_op 0x10, send_op 0xF8, send_op 0x10,
                        send_op 0xE9, read_op, read_op, read_op]])"
proof -
  have v: "valid_register 0x10" by (simp add: valid_register_def)
  have hw: "hw_version (etd_unset\<lparr>hw_version := 2\<rparr>) = 1
      \<or> hw_version (etd_unset\<lparr>hw_version := 2\<rparr>) = 2
      \<or> hw_version (etd_unset\<lparr>hw_version := 2\<rparr>) = 3
      \<or> hw_version (etd_unset\<lparr>hw_version := 2\<rparr>) = 4" by simp
  show ?thesis
    using C8_register_encoding [OF v hw, of ps2_bytes request_zero "0x54" "[]" "0x54" 0 0]
    by (simp add: write_reg_encoding_def read_reg_encoding_def custom_encoding_def
        ps2_bytes_def)
qed

text \<open>
  C8 as stated fails at generation 2: the register write submits seven operations,
  the custom-command encoding, while the sliced encoding the claim names has 28.
\<close>

theorem C8_register_encoding_counterexample:
  "\<exists>ops. elantech_write_reg ps2_bytes (etd_unset\<lparr>hw_version := 2\<rparr>) (Some request_zero)
            0x10 0x54 [] = (0, [ops])
         \<and> ops = custom_encoding [0x11, 0x10, 0x54] @ [send_op 0xE6]
         \<and> length ops = 7
         \<and> length (write_reg_as_claimed ps2_bytes 2 0x10 0x54) = 28
         \<and> ops \<noteq> write_reg_as_claimed ps2_bytes 2 0x10 0x54"
proof -
  have v: "valid_register 0x10" by (simp add: valid_register_def)
  have w: "elantech_write_reg ps2_bytes (etd_unset\<lparr>hw_version := 2\<rparr>) (Some request_zero)
            0x10 0x54 [] = (0, [write_reg_encoding ps2_bytes 2 0x10 0x54])"
    using write_reg_accepts [OF v, of "etd_unset\<lparr>hw_version := 2\<rparr>" ps2_bytes request_zero
        "0x54" "[]"] by simp
  have e: "write_reg_encoding ps2_bytes 2 0x10 0x54
             = custom_encoding [0x11, 0x10, 0x54] @ [send_op 0xE6]"
    by (simp add: write_reg_encoding_def ps2_bytes_def)
  have l1: "length (write_reg_encoding ps2_bytes 2 0x10 0x54) = 7"
    by (simp add: length_write_reg_encoding)
  have l2: "length (write_reg_as_claimed ps2_bytes 2 0x10 0x54) = 28"
    by (simp add: write_reg_as_claimed_def length_sliced_encoding)
  from l1 l2 have "write_reg_encoding ps2_bytes 2 0x10 0x54
      \<noteq> write_reg_as_claimed ps2_bytes 2 0x10 0x54"
    by (metis numeral_eq_iff semiring_norm(88) semiring_norm(89))
  with w e l1 l2 show ?thesis by simp
qed

text \<open>
  C9, as amended.  For every 8-bit opcode the sliced-command encoder returns 0, moves
  the index by eight, and leaves nine entries from the start index on: one scaling
  reset, and then for each of the four 2-bit groups of the opcode, bits 7-6, 5-4, 3-2
  and 1-0 in that order, one set-resolution command followed by the value of the
  group.  The entries before the start index are untouched, and the four values are
  the base-4 digits of the opcode.
\<close>

theorem C9_sliced_command:
  assumes "psmouse_sliced_command K r j (ucast c) = (rc, r', j')"
  shows "rc = 0 \<and> j' = j + 8
       \<and> written r' (j + 9) = written r j @ sliced_encoding K c
       \<and> sliced_encoding K c =
           [send_op (kDP_SetMouseScaling1To1 K),
            send_op (kDP_SetMouseResolution K), send_op (two_bit_group c 6),
            send_op (kDP_SetMouseResolution K), send_op (two_bit_group c 4),
            send_op (kDP_SetMouseResolution K), send_op (two_bit_group c 2),
            send_op (kDP_SetMouseResolution K), send_op (two_bit_group c 0)]
       \<and> unat c = 64 * unat (two_bit_group c 6) + 16 * unat (two_bit_group c 4)
                    + 4 * unat (two_bit_group c 2) + unat (two_bit_group c 0)"
  using sliced_command_result [OF assms] two_bit_groups_sum [of c]
  by (simp add: sliced_encoding_def)

theorem C9_sliced_command_witness:
  "written (fst (snd (psmouse_sliced_command ps2_bytes request_zero 0 (ucast (0x1B :: UInt8))))) 9
     = [send_op 0xE6, send_op 0xE8, send_op 0, send_op 0xE8, send_op 1,
        send_op 0xE8, send_op 2, send_op 0xE8, send_op 3]"
  using C9_sliced_command [of ps2_bytes request_zero 0 "0x1B"
      "fst (psmouse_sliced_command ps2_bytes request_zero 0 (ucast (0x1B :: UInt8)))"
      "fst (snd (psmouse_sliced_command ps2_bytes request_zero 0 (ucast (0x1B :: UInt8))))"
      "snd (snd (psmouse_sliced_command ps2_bytes request_zero 0 (ucast (0x1B :: UInt8))))"]
  by (simp add: written_0 two_bit_group_def ps2_bytes_def)

text \<open>
  C9 as stated fails: the encoder writes one scaling reset and nine entries in all,
  where the claim has a scaling reset for each of the four groups, twelve entries.
\<close>

theorem C9_sliced_command_counterexample:
  "written (fst (snd (psmouse_sliced_command ps2_bytes request_zero 0 (ucast (0x1B :: UInt8))))) 9
     = [send_op 0xE6, send_op 0xE8, send_op 0, send_op 0xE8, send_op 1,
        send_op 0xE8, send_op 2, send_op 0xE8, send_op 3]
   \<and> snd (snd (psmouse_sliced_command ps2_bytes request_zero 0 (ucast (0x1B :: UInt8)))) = 8
   \<and> sliced_as_claimed ps2_bytes 0x1B
     = [send_op 0xE6, send_op 0xE8, send_op 0, send_op 0xE6, send_op 0xE8, send_op 1,
        send_op 0xE6, send_op 0xE8, send_op 2, send_op 0xE6, send_op 0xE8, send_op 3]"
proof -
  obtain rc r' j' where p:
    "psmouse_sliced_command ps2_bytes request_zero 0 (ucast (0x1B :: UInt8)) = (rc, r', j')"
    by (cases "psmouse_sliced_command ps2_bytes request_zero 0 (ucast (0x1B :: UInt8))")
  from sliced_command_result [OF p] p show ?thesis
    by (simp add: written_0 sliced_encoding_def sliced_as_claimed_def two_bit_group_def
        ps2_bytes_def)
qed


text \<open>The tail of a query: the query-info command, three port reads, and the reply.\<close>

lemma query_reply:
  assumes f: "fold put_command
                [send_entry g, read_entry, read_entry, read_entry] (r0, j0) = (r1, j)"
    and sends: "\<forall>c\<in>set (written r0 j0). command c = kPS2C_SendMouseCommandAndCompareAck"
    and sub: "submitRequestAndBlock [p0, p1, p2] (r1\<lparr>commandsCount := j\<rparr>) bus = (r2, bus')"
  shows "bus' = bus @ [written r0 j0 @ [send_op g, read_op, read_op, read_op]]"
    and "inOrOut (commands r2 (j - 3)) = p0" "inOrOut (commands r2 (j - 2)) = p1"
      "inOrOut (commands r2 (j - 1)) = p2"
proof -
  let ?cvs = "[send_entry g, read_entry, read_entry, read_entry]"
  have j: "j = j0 + 4" using written_fold_put_n(1) [OF f, where n = 4] by simp
  have "written r1 (j0 + 4)
          = written r0 j0 @ map (\<lambda>cv. \<lparr>command = fst cv, inOrOut = snd cv\<rparr>) ?cvs"
    by (rule written_fold_put_n(2) [OF f]) simp
  then have w4: "written r1 (j0 + 4) = written r0 j0 @ [send_op g, read_op, read_op, read_op]"
    by (simp add: send_entry_def read_entry_def send_op_def read_op_def)
  have len: "length (written r0 j0) = j0" by (simp add: written_def)
  have fill: "fill_reads [p0, p1, p2] (written r1 (j0 + 4))
          = written r0 j0 @ [send_op g, read_op\<lparr>inOrOut := p0\<rparr>,
               read_op\<lparr>inOrOut := p1\<rparr>, read_op\<lparr>inOrOut := p2\<rparr>]"
    using fill_reads_sends [OF sends] by (simp add: w4 send_op_def read_op_def)
  show "bus' = bus @ [written r0 j0 @ [send_op g, read_op, read_op, read_op]]"
    using sub submit_bus [where reply = "[p0, p1, p2]" and r = r1 and j = j and bus = bus] j w4
    by simp
  have cmds: "\<And>i. i < j0 + 4 \<Longrightarrow>
      commands r2 i = fill_reads [p0, p1, p2] (written r1 (j0 + 4)) ! i"
    using sub j by (auto simp add: submitRequestAndBlock_def issued_written)
  have "commands r2 (j0 + 1) = read_op\<lparr>inOrOut := p0\<rparr>"
    using cmds [of "j0 + 1"] len by (simp add: fill nth_append)
  moreover have "commands r2 (j0 + 2) = read_op\<lparr>inOrOut := p1\<rparr>"
    using cmds [of "j0 + 2"] len by (simp add: fill nth_append)
  moreover have "commands r2 (j0 + 3) = read_op\<lparr>inOrOut := p2\<rparr>"
    using cmds [of "j0 + 3"] len by (simp add: fill nth_append)
  moreover have "j - 3 = j0 + 1" "j - 2 = j0 + 2" "j - 1 = j0 + 3" using j by simp_all
  ultimately show "inOrOut (commands r2 (j - 3)) = p0" "inOrOut (commands r2 (j - 2)) = p1"
      "inOrOut (commands r2 (j - 1)) = p2"
    by simp_all
qed

text \<open>
  The flag of \<open>send_cmd\<close>, which \<open>elantech_set_properties\<close> sets from generation 3 on,
  selects the encoding of the queries: the opcode after \<open>kDP_SetAllMakeRelease\<close>, or
  the sliced opcode.
\<close>

lemma send_cmd_encoding:
  "send_cmd_by_flag K (Some r) [p0, p1, p2] c param flag bus =
     (0, [p0, p1, p2],
      bus @ [(if flag then [send_op (kDP_SetAllMakeRelease K), send_op c]
              else sliced_encoding K c)
             @ [send_op (kDP_GetMouseInformation K), read_op, read_op, read_op]])"
proof (cases flag)
  case True
  let ?pre = "[send_entry (kDP_SetAllMakeRelease K), send_entry c]"
  let ?tail = "[send_entry (kDP_GetMouseInformation K), read_entry, read_entry, read_entry]"
  obtain r0 j0 where f0: "fold put_command ?pre (r, 0) = (r0, j0)"
    by (cases "fold put_command ?pre (r, 0)")
  obtain r1 j where f1: "fold put_command ?tail (r0, j0) = (r1, j)"
    by (cases "fold put_command ?tail (r0, j0)")
  obtain r2 bus' where sub:
    "submitRequestAndBlock [p0, p1, p2] (r1\<lparr>commandsCount := j\<rparr>) bus = (r2, bus')"
    by (cases "submitRequestAndBlock [p0, p1, p2] (r1\<lparr>commandsCount := j\<rparr>) bus")
  have j0: "j0 = 2" using written_fold_put_n(1) [OF f0, where n = 2] by simp
  have "written r0 (0 + 2)
          = written r 0 @ map (\<lambda>cv. \<lparr>command = fst cv, inOrOut = snd cv\<rparr>) ?pre"
    by (rule written_fold_put_n(2) [OF f0]) simp
  then have w: "written r0 j0 = [send_op (kDP_SetAllMakeRelease K), send_op c]"
    using j0 by (simp add: written_0 send_entry_def send_op_def numeral_2_eq_2)
  have sends: "\<forall>c\<in>set (written r0 j0). command c = kPS2C_SendMouseCommandAndCompareAck"
    by (simp add: w send_op_def)
  note q = query_reply [OF f1 sends sub]
  have "fold put_command
       [send_entry (kDP_SetAllMakeRelease K), send_entry c,
        send_entry (kDP_GetMouseInformation K), read_entry, read_entry, read_entry] (r, 0)
       = fold put_command ?tail (fold put_command ?pre (r, 0))"
    by simp
  then have "fold put_command
       [send_entry (kDP_SetAllMakeRelease K), send_entry c,
        send_entry (kDP_GetMouseInformation K), read_entry, read_entry, read_entry] (r, 0)
       = (r1, j)"
    by (simp only: f0 f1)
  then show ?thesis
    using True sub q w
    by (simp add: send_cmd_by_flag_def elantech_send_cmd_def del: fold.simps)
next
  case False
  let ?tail = "[send_entry (kDP_GetMouseInformation K), read_entry, read_entry, read_entry]"
  obtain rc1 r0 j1 where s1: "psmouse_sliced_command K r 0 (ucast c) = (rc1, r0, j1)"
    by (cases "psmouse_sliced_command K r 0 (ucast c)")
  obtain r1 j where f1: "fold put_command ?tail (r0, j1 + 1) = (r1, j)"
    by (cases "fold put_command ?tail (r0, j1 + 1)")
  obtain r2 bus' where sub:
    "submitRequestAndBlock [p0, p1, p2] (r1\<lparr>commandsCount := j\<rparr>) bus = (r2, bus')"
    by (cases "submitRequestAndBlock [p0, p1, p2] (r1\<lparr>commandsCount := j\<rparr>) bus")
  have j1: "j1 + 1 = 9" using sliced_command_result(2) [OF s1] by simp
  have w: "written r0 (j1 + 1) = sliced_encoding K c"
    using sliced_command_result(3) [OF s1] j1 by (simp add: written_0)
  have sends: "\<forall>c\<in>set (written r0 (j1 + 1)). command c = kPS2C_SendMouseCommandAndCompareAck"
    using sliced_encoding_sends [of K c] by (simp only: w)
  note q = query_reply [OF f1 sends sub]
  show ?thesis
    using False s1 f1 sub q w
    by (simp add: send_cmd_by_flag_def synaptics_send_cmd_def del: fold.simps)
qed

text \<open>
  The Y maximum that \<open>elantech_set_range\<close> finds for generation 3, and that \<open>start\<close>
  stores in the device data, is a 12-bit number.
\<close>

lemma set_range_v3_y_max:
  assumes "hw_version e = 3"
    and "elantech_set_range K e q1 q2 bus rg = (0, rg', bus')"
  shows "rg_y_max rg' \<le> 0xFFF"
proof -
  obtain rc1 param bus1 where s:
    "send_cmd_by_flag K (fst q1) (snd q1) ETP_FW_ID_QUERY [0, 0, 0] (send_cmd e) bus
       = (rc1, param, bus1)"
    by (cases "send_cmd_by_flag K (fst q1) (snd q1) ETP_FW_ID_QUERY [0, 0, 0] (send_cmd e) bus")
  have y: "rg_y_max rg' = push_bit 4 (ucast (0xf0 AND param ! 0)) OR ucast (param ! 2)"
    using assms s by (auto simp add: elantech_set_range_def split: if_splits)
  let ?w = "push_bit 4 (ucast (0xf0 AND param ! 0) :: 32 word) OR ucast (param ! 2)"
  have "?w AND mask 12 = ?w"
    by (rule bit_word_eqI) (auto simp add: bit_simps dest: bit_imp_le_length)
  then have "uint ?w < 2 ^ 12" by (simp only: mask_eq_iff)
  then have "?w \<le> 0xFFF" by (simp add: word_le_def)
  with y show ?thesis by simp
qed


section \<open>The decoder\<close>

lemma small_sint:
  assumes "- (2 ^ 15) \<le> k" "k < 2 ^ 15"
  shows "sint (word_of_int k :: 32 word) = k"
  using assms by (simp add: signed_of_int signed_take_bit_int_eq_self)

lemma small_roundtrip:
  assumes "- (2 ^ 15) \<le> k" "k < 2 ^ 15"
  shows "(scast (ucast (word_of_int k :: 32 word) :: 16 word) :: 32 word) = word_of_int k"
proof -
  have "(ucast (word_of_int k :: 32 word) :: 16 word) = word_of_int k"
    by (rule bit_word_eqI) (auto simp add: bit_simps)
  moreover have "sint (word_of_int k :: 16 word) = k"
    using assms by (simp add: signed_of_int signed_take_bit_int_eq_self)
  ultimately show ?thesis
    by (simp add: scast_eq)
qed

lemma nibble_pair:
  "unat (push_bit 8 (ucast ((h::8 word) AND 0x0f) :: 32 word) OR ucast (l::8 word))
     = unat h mod 16 * 256 + unat l"
proof -
  have l: "unat l < 256" using unsigned_less [of l, where 'a = nat] by simp
  have "unat (h AND mask 4) = unat h mod 2 ^ 4"
    by (simp add: unat_mod_distrib take_bit_eq_mod flip: take_bit_eq_mask)
  moreover have "mask 4 = (0x0f :: 8 word)" by (simp add: mask_eq_exp_minus_1)
  ultimately have hm: "unat (h AND 0x0f) = unat h mod 16" by simp
  have "push_bit 8 (ucast (h AND 0x0f) :: 32 word) OR ucast l
      = push_bit 8 (ucast (h AND 0x0f) :: 32 word) + ucast l"
    by (rule disjunctive_add [symmetric]) (auto simp add: bit_simps dest: bit_imp_le_length)
  also have "unat \<dots> = unat h mod 16 * 256 + unat l"
    using hm l
    by (simp add: unat_word_ariths unsigned_push_bit_eq unsigned_ucast_eq push_bit_eq_mult
        take_bit_eq_mod)
  finally show ?thesis .
qed

lemma raw_x_less: "raw_x p < 4096"
proof -
  have "unat (p ! 2) < 256" using unsigned_less [of "p ! 2", where 'a = nat] by simp
  moreover have "unat (p ! 1) mod 16 < 16" by simp
  ultimately show ?thesis unfolding raw_x_def by linarith
qed

lemma raw_y_less: "raw_y p < 4096"
proof -
  have "unat (p ! 5) < 256" using unsigned_less [of "p ! 5", where 'a = nat] by simp
  moreover have "unat (p ! 4) mod 16 < 16" by simp
  ultimately show ?thesis unfolding raw_y_def by linarith
qed

lemma unat_decode_x: "unat (decode_x p) = raw_x p"
  by (simp add: decode_x_def raw_x_def nibble_pair)

lemma decode_x_of_int: "decode_x p = word_of_int (sample_x p)"
proof -
  have "decode_x p = of_nat (unat (decode_x p))" by simp
  then show ?thesis by (simp add: unat_decode_x sample_x_def)
qed

lemma decode_y_of_int:
  assumes "y_max e = ym"
  shows "decode_y e p = word_of_int (sample_y ym p)"
proof -
  have "unat (push_bit 8 (ucast (p ! 4 AND 0x0f) :: 32 word) OR ucast (p ! 5)) = raw_y p"
    by (simp only: nibble_pair raw_y_def)
  then have "(of_nat (unat (push_bit 8 (ucast (p ! 4 AND 0x0f) :: 32 word) OR ucast (p ! 5)))
               :: 32 word) = of_nat (raw_y p)"
    by (rule arg_cong)
  then have r: "push_bit 8 (ucast (p ! 4 AND 0x0f) :: 32 word) OR ucast (p ! 5)
                  = of_nat (raw_y p)"
    by simp
  have "ym = of_nat (unat ym)" by simp
  then have "ym - of_nat (raw_y p) = word_of_int (int (unat ym) - int (raw_y p))"
    by (simp add: of_int_diff) 
  with r assms show ?thesis by (simp add: decode_y_def sample_y_def)
qed

lemma sample_x_range: "0 \<le> sample_x p" "sample_x p < 4096"
  using raw_x_less [of p] by (simp_all add: sample_x_def)

lemma sample_y_range:
  assumes "ym \<le> 0xFFF"
  shows "- 4096 < sample_y ym p" "sample_y ym p < 4096"
proof -
  have "uint ym \<le> 4095" using assms by (simp add: word_le_def)
  moreover have "int (raw_y p) < 4096" using raw_y_less [of p] by simp
  moreover have "0 \<le> uint ym" by simp
  moreover have "sample_y ym p = uint ym - int (raw_y p)" by (simp add: sample_y_def)
  ultimately show "- 4096 < sample_y ym p" "sample_y ym p < 4096"
    by linarith+
qed

lemma small_zero:
  assumes "- (2 ^ 15) \<le> k" "k < 2 ^ 15"
  shows "(word_of_int k :: 32 word) = 0 \<longleftrightarrow> k = 0"
  using small_sint [OF assms] by (metis sint_0 word_of_int_0)

lemma decode_valid:
  assumes "y_max e = ym" "ym \<le> 0xFFF"
  shows "(decode_x p \<noteq> 0 \<and> decode_y e p \<noteq> 0) \<longleftrightarrow> valid_sample ym p"
proof -
  have "(decode_x p = 0) \<longleftrightarrow> sample_x p = 0"
    unfolding decode_x_of_int using sample_x_range [of p] by (intro small_zero) simp_all
  moreover have "(decode_y e p = 0) \<longleftrightarrow> sample_y ym p = 0"
    unfolding decode_y_of_int [OF assms(1)] using sample_y_range [OF assms(2), of p]
    by (intro small_zero) simp_all
  ultimately show ?thesis by (simp add: valid_sample_def)
qed

lemma diff_from_start:
  assumes "- 4096 < a" "a < 4096" "- 4096 < a0" "a0 < 4096"
  shows "sint ((word_of_int a :: 32 word) - scast (ucast (word_of_int a0 :: 32 word) :: 16 word))
           = a - a0"
proof -
  have "(scast (ucast (word_of_int a0 :: 32 word) :: 16 word) :: 32 word) = word_of_int a0"
    using assms by (intro small_roundtrip) simp_all
  then have "(word_of_int a :: 32 word) - scast (ucast (word_of_int a0 :: 32 word) :: 16 word)
      = word_of_int (a - a0)" by simp
  moreover have "sint (word_of_int (a - a0) :: 32 word) = a - a0"
    using assms by (intro small_sint) simp_all
  ultimately show ?thesis by simp
qed

lemma out_of_tap_range_sint:
  "out_of_tap_range dx dy \<longleftrightarrow> \<not> (\<bar>sint dx\<bar> \<le> 32 \<and> \<bar>sint dy\<bar> \<le> 32)"
  by (auto simp add: out_of_tap_range_def ETP_TAPTOCLICK_DIST_def word_sless_alt)

lemma out_of_tap_range_samples:
  assumes "y_max e = ym" "ym \<le> 0xFFF"
  shows "out_of_tap_range
           (decode_x p - scast (ucast (decode_x p0) :: 16 word))
           (decode_y e p - scast (ucast (decode_y e p0) :: 16 word))
         \<longleftrightarrow> \<not> within_tap ym p0 p"
proof -
  have x: "sint (decode_x p - scast (ucast (decode_x p0) :: 16 word))
             = sample_x p - sample_x p0"
    unfolding decode_x_of_int
    using sample_x_range [of p] sample_x_range [of p0] by (intro diff_from_start) simp_all
  have y: "sint (decode_y e p - scast (ucast (decode_y e p0) :: 16 word))
             = sample_y ym p - sample_y ym p0"
    unfolding decode_y_of_int [OF assms(1)]
    using sample_y_range [OF assms(2), of p] sample_y_range [OF assms(2), of p0]
    by (intro diff_from_start) simp_all
  show ?thesis by (simp add: out_of_tap_range_sint x y within_tap_def)
qed

lemma packet_check_frame_type: "elantech_packet_check_v3 e p = frame_type p"
  by (simp add: elantech_packet_check_v3_def frame_type_def)

text \<open>The six interrupts of a frame that arrives between two frames.\<close>

lemma frame_interrupts:
  assumes "packetByteCount s = 0" "pktsize s = 6" "hw_version (etd s) = 3"
    and "length (packetBuffer s) = 6" "length p = 6"
  shows "interrupts p s =
     (if frame_type p \<noteq> PACKET_DEBOUNCE \<and> frame_type p \<noteq> PACKET_UNKNOWN
      then Inr (elantech_report_absolute_v3 p 6 (frame_type p)
                  (s\<lparr>packetBuffer := p, packetByteCount := 6\<rparr>))
      else Inr (s\<lparr>packetBuffer := p, packetByteCount := 6\<rparr>))"
proof -
  obtain b0 b1 b2 b3 b4 b5 where p: "p = [b0, b1, b2, b3, b4, b5]"
    using assms(5) by (auto simp add: eval_nat_numeral length_Suc_conv)
  obtain a0 a1 a2 a3 a4 a5 where a: "packetBuffer s = [a0, a1, a2, a3, a4, a5]"
    using assms(4) by (auto simp add: eval_nat_numeral length_Suc_conv)
  show ?thesis
    using assms(1-3) a
    by (simp add: p interruptOccurred_def Let_def packet_check_frame_type)
qed

text \<open>The start point block of slot \<open>n\<close> on a sample with non-zero coordinates.\<close>

lemma track_tap_slot:
  assumes ym: "y_max (etd s) = ym" "ym \<le> 0xFFF"
    and len: "length (tapInRange s) = 5" "length (validStartPoint s) = 5"
      "length (startPoint s) = 5"
    and n: "n < 5"
    and c: "slot_latched ym c n s"
    and g: "\<not> g \<longrightarrow> \<not> tapInRange s ! n"
    and t: "tapToClick s \<longrightarrow> tapInRange s ! n"
    and v: "valid_sample ym p"
    and s': "s' = track_tap n g (decode_x p) (decode_y (etd s) p) s"
  shows "slot_latched ym (latch ym True c p) n s'"
    and "tapToClick s' = (tapToClick s \<and> keeps_tap ym True c p)"
    and "tapToClick s' \<longrightarrow> tapInRange s' ! n"
    and "length (tapInRange s') = 5" "length (validStartPoint s') = 5"
      "length (startPoint s') = 5"
    and "\<And>m. m \<noteq> n \<Longrightarrow> validStartPoint s' ! m = validStartPoint s ! m"
    and "\<And>m. m \<noteq> n \<Longrightarrow> startPoint s' ! m = startPoint s ! m"
    and "\<And>m. m \<noteq> n \<Longrightarrow> tapInRange s' ! m = tapInRange s ! m"
    and "etd s' = etd s" "events s' = events s" "packetBuffer s' = packetBuffer s"
      "pktsize s' = pktsize s"
proof -
  have dx: "decode_x p = word_of_int (sample_x p)" by (rule decode_x_of_int)
  have dy: "decode_y (etd s) p = word_of_int (sample_y ym p)"
    by (rule decode_y_of_int [OF ym(1)])
  show "slot_latched ym (latch ym True c p) n s'"
    using c len n v
    by (cases c) (auto simp add: s' track_tap_def Let_def slot_latched_def latch_def dx dy)
  show "tapToClick s' = (tapToClick s \<and> keeps_tap ym True c p)"
  proof (cases c)
    case None
    with c v show ?thesis
      by (auto simp add: s' track_tap_def Let_def slot_latched_def keeps_tap_def)
  next
    case (Some p0)
    have out: "out_of_tap_range
           (word_of_int (sample_x p) - scast (ucast (word_of_int (sample_x p0) :: 32 word) :: 16 word))
           (word_of_int (sample_y ym p)
              - scast (ucast (word_of_int (sample_y ym p0) :: 32 word) :: 16 word))
         \<longleftrightarrow> \<not> within_tap ym p0 p"
      using out_of_tap_range_samples [OF ym, of p p0]
      by (simp add: decode_x_of_int decode_y_of_int [OF ym(1)])
    show ?thesis
      using c Some g t len n v
      by (auto simp add: s' track_tap_def Let_def slot_latched_def keeps_tap_def dx dy out)
  qed
  show "tapToClick s' \<longrightarrow> tapInRange s' ! n"
    using t len n by (auto simp add: s' track_tap_def Let_def)
  show "length (tapInRange s') = 5" "length (validStartPoint s') = 5"
      "length (startPoint s') = 5"
    using len by (auto simp add: s' track_tap_def Let_def)
  show "\<And>m. m \<noteq> n \<Longrightarrow> validStartPoint s' ! m = validStartPoint s ! m"
    by (auto simp add: s' track_tap_def Let_def)
  show "\<And>m. m \<noteq> n \<Longrightarrow> startPoint s' ! m = startPoint s ! m"
    by (auto simp add: s' track_tap_def Let_def)
  show "\<And>m. m \<noteq> n \<Longrightarrow> tapInRange s' ! m = tapInRange s ! m"
    by (auto simp add: s' track_tap_def Let_def)
  show "etd s' = etd s" "events s' = events s" "packetBuffer s' = packetBuffer s"
      "pktsize s' = pktsize s"
    by (auto simp add: s' track_tap_def Let_def)
qed

lemma tap_state_fields:
  assumes "y_max (etd s') = y_max (etd s)" "tapInRange s' = tapInRange s"
    and "validStartPoint s' = validStartPoint s" "startPoint s' = startPoint s"
    and "tapToClick s' = tapToClick s"
  shows "tap_state ym c0 c1 s' = tap_state ym c0 c1 s"
  using assms by (simp add: tap_state_def slot_latched_def cong: option.case_cong)

lemma latch_other [simp]: "latch ym False c p = c"
  by (simp add: latch_def)

lemma keeps_tap_other [simp]: "keeps_tap ym False c p"
  by (simp add: keeps_tap_def)

lemma track_tap_state:
  assumes ts: "tap_state ym c0 c1 t"
    and v: "valid_sample ym p"
    and n: "n = 0 \<or> n = 1"
    and g: "\<not> g \<longrightarrow> \<not> tapInRange t ! n"
    and t': "t' = track_tap n g (decode_x p) (decode_y (etd t) p) t"
  shows "tap_state ym (latch ym (n = 0) c0 p) (latch ym (n = 1) c1 p) t'"
    and "tapToClick t' = (tapToClick t \<and> keeps_tap ym (n = 0) c0 p \<and> keeps_tap ym (n = 1) c1 p)"
    and "etd t' = etd t" "events t' = events t" "packetBuffer t' = packetBuffer t"
      "pktsize t' = pktsize t"
proof -
  from ts have ym: "y_max (etd t) = ym" "ym \<le> 0xFFF"
    and len: "length (tapInRange t) = 5" "length (validStartPoint t) = 5"
      "length (startPoint t) = 5"
    and c0: "slot_latched ym c0 0 t" and c1: "slot_latched ym c1 1 t"
    and tc: "tapToClick t \<longrightarrow> tapInRange t ! 0 \<and> tapInRange t ! 1"
    by (simp_all add: tap_state_def)
  show "etd t' = etd t" "events t' = events t" "packetBuffer t' = packetBuffer t"
      "pktsize t' = pktsize t"
    by (auto simp add: t' track_tap_def Let_def)
  from n show "tap_state ym (latch ym (n = 0) c0 p) (latch ym (n = 1) c1 p) t'"
  proof
    assume n0: "n = 0"
    have tt: "tapToClick t \<longrightarrow> tapInRange t ! n" using tc n0 by simp
    have nn: "n < 5" using n0 by simp
    have cn: "slot_latched ym c0 n t" using c0 n0 by simp
    note r = track_tap_slot [OF ym len nn cn g tt v t']
    have "slot_latched ym c1 1 t'"
      using c1 r(7) [of 1] r(8) [of 1] n0 by (simp add: slot_latched_def split: option.splits)
    moreover have "tapToClick t' \<longrightarrow> tapInRange t' ! 0 \<and> tapInRange t' ! 1"
      using r(2) r(3) r(9) [of 1] tc n0 by auto
    ultimately show ?thesis
      using r(1) r(4-6) r(10) ym n0 by (simp add: tap_state_def)
  next
    assume n1: "n = 1"
    have tt: "tapToClick t \<longrightarrow> tapInRange t ! n" using tc n1 by simp
    have nn: "n < 5" using n1 by simp
    have cn: "slot_latched ym c1 n t" using c1 n1 by simp
    note r = track_tap_slot [OF ym len nn cn g tt v t']
    have "slot_latched ym c0 0 t'"
      using c0 r(7) [of 0] r(8) [of 0] n1 by (simp add: slot_latched_def split: option.splits)
    moreover have "tapToClick t' \<longrightarrow> tapInRange t' ! 0 \<and> tapInRange t' ! 1"
      using r(2) r(3) r(9) [of 0] tc n1 by auto
    ultimately show ?thesis
      using r(1) r(4-6) r(10) ym n1 by (simp add: tap_state_def)
  qed
  from n show "tapToClick t' = (tapToClick t \<and> keeps_tap ym (n = 0) c0 p \<and> keeps_tap ym (n = 1) c1 p)"
  proof
    assume n0: "n = 0"
    have tt: "tapToClick t \<longrightarrow> tapInRange t ! n" using tc n0 by simp
    have nn: "n < 5" using n0 by simp
    have cn: "slot_latched ym c0 n t" using c0 n0 by simp
    from track_tap_slot(2) [OF ym len nn cn g tt v t'] n0 show ?thesis by simp
  next
    assume n1: "n = 1"
    have tt: "tapToClick t \<longrightarrow> tapInRange t ! n" using tc n1 by simp
    have nn: "n < 5" using n1 by simp
    have cn: "slot_latched ym c1 n t" using c1 n1 by simp
    from track_tap_slot(2) [OF ym len nn cn g tt v t'] n1 show ?thesis by simp
  qed
qed

text \<open>A frame of a contact: the tap state after the decoder has seen it.\<close>

lemma report_contact:
  assumes ts: "tap_state ym c0 c1 s" and cf: "contact_frame p"
    and s': "s' = elantech_report_absolute_v3 p sz (frame_type p) s"
  shows "tap_state ym (latch ym (for_slot0 p) c0 p) (latch ym (\<not> for_slot0 p) c1 p) s'"
    and "tapToClick s' = (tapToClick s \<and> keeps_tap ym (for_slot0 p) c0 p
           \<and> keeps_tap ym (\<not> for_slot0 p) c1 p)"
    and "last_fingers s' = packet_fingers p" "packetByteCount s' = 0"
    and "pktsize s' = pktsize s" "hw_version (etd s') = hw_version (etd s)"
    and "packetBuffer s' = packetBuffer s"
    and "\<exists>es. events s' = events s @ es"
proof -
  from ts have ym: "y_max (etd s) = ym" "ym \<le> 0xFFF" by (simp_all add: tap_state_def)
  have dv: "(decode_x p \<noteq> 0 \<and> decode_y (etd s) p \<noteq> 0) \<longleftrightarrow> valid_sample ym p"
    by (rule decode_valid [OF ym])
  have types: "PACKET_V3_TAIL \<noteq> PACKET_V3_HEAD"
    by (simp add: PACKET_V3_TAIL_def PACKET_V3_HEAD_def)
  let ?goal = "\<lambda>u. tap_state ym (latch ym (for_slot0 p) c0 p) (latch ym (\<not> for_slot0 p) c1 p) u
        \<and> tapToClick u = (tapToClick s \<and> keeps_tap ym (for_slot0 p) c0 p
             \<and> keeps_tap ym (\<not> for_slot0 p) c1 p)
        \<and> pktsize u = pktsize s \<and> hw_version (etd u) = hw_version (etd s)
        \<and> packetBuffer u = packetBuffer s \<and> (\<exists>es. events u = events s @ es)"
  have inner: "?goal
     (if packet_fingers p = 1 then report_one_finger p (packet_buttons p) s
      else if frame_type p = PACKET_V3_HEAD then report_head p s else report_tail p s)"
  proof (cases "valid_sample ym p")
    case False
    then have l: "latch ym (for_slot0 p) c0 p = c0" "latch ym (\<not> for_slot0 p) c1 p = c1"
      and k: "keeps_tap ym (for_slot0 p) c0 p" "keeps_tap ym (\<not> for_slot0 p) c1 p"
      by (simp_all add: latch_def keeps_tap_def)
    have "tap_state ym c0 c1 (s\<lparr>etd := (etd s)\<lparr>mt := (mt (etd s))[0 :=
              \<lparr>pt_x = ucast (decode_x p), pt_y = ucast (decode_y (etd s) p)\<rparr>]\<rparr>\<rparr>)"
      using ts by (simp add: tap_state_def slot_latched_def cong: option.case_cong)
    then show ?thesis
      using False dv ts
      by (auto simp add: l k report_one_finger_def report_head_def report_tail_def Let_def)
  next
    case True
    show ?thesis
    proof (cases "packet_fingers p = 1")
      case one: True
      then have f0: "for_slot0 p" by (simp add: for_slot0_def)
      let ?t = "(if validLastPoint s
                 then dispatchRelativePointerEvent
                        (decode_x p - scast (pt_x (lastPoint s)))
                        (decode_y (etd s) p - scast (pt_y (lastPoint s))) (packet_buttons p) s
                 else s)
                \<lparr>lastPoint := \<lparr>pt_x = ucast (decode_x p), pt_y = ucast (decode_y (etd s) p)\<rparr>,
                  validLastPoint := True\<rparr>"
      have tst: "tap_state ym c0 c1 ?t"
        using ts
        by (simp add: tap_state_def slot_latched_def dispatchRelativePointerEvent_def
            cong: option.case_cong)
      have et: "etd ?t = etd s" "pktsize ?t = pktsize s" "packetBuffer ?t = packetBuffer s"
        "tapToClick ?t = tapToClick s" "\<exists>es. events ?t = events s @ es"
        by (simp_all add: dispatchRelativePointerEvent_def)
      have r: "report_one_finger p (packet_buttons p) s
                 = track_tap 0 True (decode_x p) (decode_y (etd ?t) p) ?t"
        using True dv by (simp add: report_one_finger_def Let_def et)
      note q = track_tap_state [OF tst True _ _ r, of ]
      have "?goal (report_one_finger p (packet_buttons p) s)"
        using q et f0 by simp
      with one show ?thesis by simp
    next
      case notone: False
      show ?thesis
      proof (cases "frame_type p = PACKET_V3_HEAD")
        case head: True
        then have f0: "for_slot0 p" by (simp add: for_slot0_def)
        obtain t' where t': "t' = track_tap 0 (tapInRange s ! 0) (decode_x p) (decode_y (etd s) p) s"
          by simp
        note q = track_tap_state [OF ts True _ _ t']
        have r: "report_head p s = t'\<lparr>etd := (etd t')\<lparr>mt := (mt (etd t'))[0 :=
              \<lparr>pt_x = ucast (decode_x p), pt_y = ucast (decode_y (etd s) p)\<rparr>]\<rparr>\<rparr>"
          using True dv by (simp add: report_head_def Let_def t')
        have "tap_state ym (latch ym True c0 p) c1 (report_head p s)
            = tap_state ym (latch ym True c0 p) c1 t'"
          unfolding r by (rule tap_state_fields) simp_all
        then have "?goal (report_head p s)"
          using q f0 by (simp add: r)
        with notone head show ?thesis by simp
      next
        case tail: False
        with notone have f0: "\<not> for_slot0 p" by (simp add: for_slot0_def)
        have r: "report_tail p s
                   = track_tap 1 (tapInRange s ! 1) (decode_x p) (decode_y (etd s) p) s"
          using True dv by (simp add: report_tail_def Let_def)
        note q = track_tap_state [OF ts True _ _ r]
        have "?goal (report_tail p s)"
          using q f0 by simp
        with notone tail show ?thesis by simp
      qed
    qed
  qed
  have fs: "packet_fingers p = 1 \<or> packet_fingers p = 2"
    using cf by (simp add: contact_frame_def)
  have ft: "frame_type p = PACKET_V3_HEAD \<or> frame_type p = PACKET_V3_TAIL"
    using cf by (simp add: contact_frame_def)
  have s'': "s' = (if packet_fingers p = 1 then report_one_finger p (packet_buttons p) s
      else if frame_type p = PACKET_V3_HEAD then report_head p s else report_tail p s)
      \<lparr>last_fingers := packet_fingers p, packetByteCount := 0\<rparr>"
    using fs by (auto simp add: s' elantech_report_absolute_v3_def Let_def)
  have "tap_state ym (latch ym (for_slot0 p) c0 p) (latch ym (\<not> for_slot0 p) c1 p) s'
      = tap_state ym (latch ym (for_slot0 p) c0 p) (latch ym (\<not> for_slot0 p) c1 p)
          (if packet_fingers p = 1 then report_one_finger p (packet_buttons p) s
           else if frame_type p = PACKET_V3_HEAD then report_head p s else report_tail p s)"
    unfolding s'' by (rule tap_state_fields) simp_all
  with inner show "tap_state ym (latch ym (for_slot0 p) c0 p) (latch ym (\<not> for_slot0 p) c1 p) s'"
    by simp
  from inner show "tapToClick s' = (tapToClick s \<and> keeps_tap ym (for_slot0 p) c0 p
           \<and> keeps_tap ym (\<not> for_slot0 p) c1 p)"
    by (simp add: s'')
  from inner show "last_fingers s' = packet_fingers p" "packetByteCount s' = 0"
    and "pktsize s' = pktsize s" "hw_version (etd s') = hw_version (etd s)"
    and "packetBuffer s' = packetBuffer s"
    and "\<exists>es. events s' = events s @ es"
    by (simp_all add: s'')
qed

lemma interrupts_append:
  "interrupts (xs @ ys) s =
     (case interrupts xs s of Inl e \<Rightarrow> Inl e | Inr s' \<Rightarrow> interrupts ys s')"
  by (induction xs arbitrary: s) (simp_all split: sum.splits)

lemma contact_frame_interrupts:
  assumes bf: "between_frames s" and ts: "tap_state ym c0 c1 s" and cf: "contact_frame p"
  shows "\<exists>s'. interrupts p s = Inr s' \<and> between_frames s'
           \<and> tap_state ym (latch ym (for_slot0 p) c0 p) (latch ym (\<not> for_slot0 p) c1 p) s'
           \<and> tapToClick s' = (tapToClick s \<and> keeps_tap ym (for_slot0 p) c0 p
                \<and> keeps_tap ym (\<not> for_slot0 p) c1 p)
           \<and> last_fingers s' = packet_fingers p
           \<and> (\<exists>es. events s' = events s @ es)"
proof -
  let ?t = "s\<lparr>packetBuffer := p, packetByteCount := 6\<rparr>"
  let ?s' = "elantech_report_absolute_v3 p 6 (frame_type p) ?t"
  have len: "length p = 6" using cf by (simp add: contact_frame_def)
  have ty: "frame_type p \<noteq> PACKET_DEBOUNCE \<and> frame_type p \<noteq> PACKET_UNKNOWN"
    using cf
    by (auto simp add: contact_frame_def PACKET_V3_HEAD_def PACKET_V3_TAIL_def
        PACKET_DEBOUNCE_def PACKET_UNKNOWN_def)
  have i: "interrupts p s = Inr ?s'"
    using bf len ty by (simp add: frame_interrupts between_frames_def)
  have "tap_state ym c0 c1 ?t = tap_state ym c0 c1 s"
    by (rule tap_state_fields) simp_all
  with ts have tt: "tap_state ym c0 c1 ?t" by simp
  note r = report_contact [OF tt cf refl, of 6]
  have "y_max (etd ?s') \<le> 0xFFF" using r(1) by (simp add: tap_state_def)
  then have "between_frames ?s'"
    using bf r(4-7) len by (simp add: between_frames_def)
  with i r(1-3) r(8) show ?thesis by simp
qed

lemma contact_run:
  assumes "between_frames s" and "tap_state ym c0 c1 s" and "\<forall>p\<in>set fs. contact_frame p"
  shows "\<exists>s' c0' c1'. interrupts (concat fs) s = Inr s' \<and> between_frames s'
           \<and> tap_state ym c0' c1' s'
           \<and> tapToClick s' = (tapToClick s \<and> tap_run ym c0 c1 fs)
           \<and> last_fingers s' = (if fs = [] then last_fingers s else packet_fingers (last fs))
           \<and> (\<exists>es. events s' = events s @ es)"
  using assms
proof (induction fs arbitrary: s c0 c1)
  case Nil
  then show ?case by auto
next
  case (Cons p fs)
  from Cons.prems have cf: "contact_frame p" and rest: "\<forall>q\<in>set fs. contact_frame q"
    by simp_all
  obtain s1 where s1: "interrupts p s = Inr s1" "between_frames s1"
      "tap_state ym (latch ym (for_slot0 p) c0 p) (latch ym (\<not> for_slot0 p) c1 p) s1"
      "tapToClick s1 = (tapToClick s \<and> keeps_tap ym (for_slot0 p) c0 p
                \<and> keeps_tap ym (\<not> for_slot0 p) c1 p)"
      "last_fingers s1 = packet_fingers p" "\<exists>es. events s1 = events s @ es"
    using contact_frame_interrupts [OF Cons.prems(1,2) cf] by blast
  obtain s' c0' c1' where s': "interrupts (concat fs) s1 = Inr s'" "between_frames s'"
      "tap_state ym c0' c1' s'"
      "tapToClick s' = (tapToClick s1 \<and> tap_run ym (latch ym (for_slot0 p) c0 p)
                          (latch ym (\<not> for_slot0 p) c1 p) fs)"
      "last_fingers s' = (if fs = [] then last_fingers s1 else packet_fingers (last fs))"
      "\<exists>es. events s' = events s1 @ es"
    using Cons.IH [OF s1(2,3) rest] by blast
  have "interrupts (concat (p # fs)) s = Inr s'"
    using s1(1) s'(1) by (simp add: interrupts_append)
  moreover have "tapToClick s' = (tapToClick s \<and> tap_run ym c0 c1 (p # fs))"
    using s1(4) s'(4) by auto
  moreover have "last_fingers s' = packet_fingers (last (p # fs))"
    using s1(5) s'(5) by simp
  moreover have "\<exists>es. events s' = events s @ es"
    using s1(6) s'(6) by auto
  ultimately show ?case using s'(2,3) by auto
qed

lemma stays_from_Nil [simp]: "stays_from ym c []"
  by (simp add: stays_from_def stays_in_tap_range_def split: option.splits)

lemma stays_from_Cons:
  "stays_from ym c (p # ps) = (keeps_tap ym True c p \<and> stays_from ym (latch ym True c p) ps)"
  by (cases c)
    (simp_all add: stays_from_def stays_in_tap_range_def keeps_tap_def latch_def)

lemma tap_run_stays:
  "tap_run ym c0 c1 fs =
     (stays_from ym c0 (filter for_slot0 fs)
      \<and> stays_from ym c1 (filter (\<lambda>p. \<not> for_slot0 p) fs))"
proof (induction fs arbitrary: c0 c1)
  case Nil
  show ?case by simp
next
  case (Cons p fs)
  show ?case
  proof (cases "for_slot0 p")
    case True
    then show ?thesis by (auto simp add: Cons.IH stays_from_Cons)
  next
    case False
    then show ?thesis by (auto simp add: Cons.IH stays_from_Cons)
  qed
qed

lemma tap_run_eligible: "tap_run ym None None fs = tap_eligible ym fs"
  by (simp add: tap_run_stays tap_eligible_def stays_from_def)

lemma reset_tracking_lists:
  assumes "length (validStartPoint s) = 5" "length (tapInRange s) = 5"
  shows "validStartPoint (reset_tracking s) = replicate 5 False"
    and "tapInRange (reset_tracking s) = replicate 5 True"
    and "tapToClick (reset_tracking s)"
    and "startPoint (reset_tracking s) = startPoint s" "events (reset_tracking s) = events s"
    and "etd (reset_tracking s) = etd s" "pktsize (reset_tracking s) = pktsize s"
    and "packetBuffer (reset_tracking s) = packetBuffer s"
proof -
  have u: "[0..<5] = [0, 1, 2, 3, 4]" by (simp add: upt_rec)
  obtain v0 v1 v2 v3 v4 where v: "validStartPoint s = [v0, v1, v2, v3, v4]"
    using assms(1) by (auto simp add: eval_nat_numeral length_Suc_conv)
  obtain r0 r1 r2 r3 r4 where r: "tapInRange s = [r0, r1, r2, r3, r4]"
    using assms(2) by (auto simp add: eval_nat_numeral length_Suc_conv)
  show "validStartPoint (reset_tracking s) = replicate 5 False"
    and "tapInRange (reset_tracking s) = replicate 5 True"
    and "tapToClick (reset_tracking s)"
    and "startPoint (reset_tracking s) = startPoint s" "events (reset_tracking s) = events s"
    and "etd (reset_tracking s) = etd s" "pktsize (reset_tracking s) = pktsize s"
    and "packetBuffer (reset_tracking s) = packetBuffer s"
    by (simp_all add: reset_tracking_def ETP_MAX_FINGERS_def u v r Let_def eval_nat_numeral)
qed

text \<open>The release frame: the event it dispatches and the state it leaves.\<close>

lemma release_frame_interrupts:
  assumes bf: "between_frames s" and ts: "tap_state ym c0 c1 s" and rf: "release_frame r"
  shows "\<exists>s'. interrupts r s = Inr s' \<and> between_frames s' \<and> no_contact s'
           \<and> events s' = events s
                @ [\<lparr>ev_dx = 0, ev_dy = 0,
                    ev_buttons = fst (synthesize_click (packet_buttons r) s)\<rparr>]"
proof -
  let ?t = "s\<lparr>packetBuffer := r, packetByteCount := 6\<rparr>"
  let ?s' = "elantech_report_absolute_v3 r 6 (frame_type r) ?t"
  have len: "length r = 6" and f0: "packet_fingers r = 0"
    using rf by (simp_all add: release_frame_def)
  have ty: "frame_type r \<noteq> PACKET_DEBOUNCE \<and> frame_type r \<noteq> PACKET_UNKNOWN"
    using rf
    by (auto simp add: release_frame_def PACKET_V3_HEAD_def PACKET_V3_TAIL_def
        PACKET_DEBOUNCE_def PACKET_UNKNOWN_def)
  have i: "interrupts r s = Inr ?s'"
    using bf len ty by (simp add: frame_interrupts between_frames_def)
  obtain b u where sc: "synthesize_click (packet_buttons r) ?t = (b, u)"
    by (cases "synthesize_click (packet_buttons r) ?t")
  have b: "b = fst (synthesize_click (packet_buttons r) s)"
    using sc by (auto simp add: synthesize_click_def split: if_splits)
  have u: "validStartPoint u = validStartPoint s" "tapInRange u = tapInRange s"
      "startPoint u = startPoint s" "events u = events s" "etd u = etd s"
      "pktsize u = pktsize s" "packetBuffer u = r"
    using sc by (auto simp add: synthesize_click_def split: if_splits)
  let ?d = "dispatchRelativePointerEvent 0 0 b u"
  have l: "length (validStartPoint ?d) = 5" "length (tapInRange ?d) = 5"
    using ts u by (simp_all add: tap_state_def dispatchRelativePointerEvent_def)
  note rt = reset_tracking_lists [OF l]
  have s'': "?s' = (reset_tracking ?d)\<lparr>last_fingers := 0, packetByteCount := 0\<rparr>"
    using f0 sc by (simp add: elantech_report_absolute_v3_def report_release_def Let_def)
  have "no_contact ?s'"
    using rt ts u by (simp add: s'' no_contact_def tap_state_def dispatchRelativePointerEvent_def)
  moreover have "between_frames ?s'"
    using rt bf u len by (simp add: s'' between_frames_def dispatchRelativePointerEvent_def)
  moreover have "events ?s' = events s @ [\<lparr>ev_dx = 0, ev_dy = 0, ev_buttons = b\<rparr>]"
    using rt u by (simp add: s'' dispatchRelativePointerEvent_def)
  ultimately show ?thesis using i b by simp
qed

lemma no_contact_tap_state:
  assumes "no_contact s" "between_frames s"
  shows "tap_state (y_max (etd s)) None None s"
  using assms
  by (simp add: no_contact_def between_frames_def tap_state_def slot_latched_def)

lemma synthesize_click_buttons:
  "fst (synthesize_click b s) =
     (if tapToClick s \<and> last_fingers s = 1 then b OR 0x1
      else if tapToClick s \<and> last_fingers s = 2 then b OR 0x2 else b)"
proof -
  have "last_fingers s \<le> 2 \<and> last_fingers s > 0 \<longleftrightarrow> last_fingers s = 1 \<or> last_fingers s = 2"
    by (auto simp add: word_le_nat_alt word_less_nat_alt word_unat_eq_iff)
  then show ?thesis
    by (auto simp add: synthesize_click_def)
qed

text \<open>A contact from rest to its release frame.\<close>

lemma tap_release:
  assumes bf: "between_frames s" and nc: "no_contact s"
    and ne: "fs \<noteq> []" and cf: "\<forall>p\<in>set fs. contact_frame p" and rf: "release_frame r"
  shows "\<exists>s'. interrupts (concat fs @ r) s = Inr s'
           \<and> events s' \<noteq> []
           \<and> last (events s')
               = \<lparr>ev_dx = 0, ev_dy = 0,
                  ev_buttons =
                    (if tap_eligible (y_max (etd s)) fs
                     then packet_buttons r OR (if packet_fingers (last fs) = 1 then 0x1 else 0x2)
                     else packet_buttons r)\<rparr>
           \<and> between_frames s' \<and> no_contact s'"
proof -
  let ?ym = "y_max (etd s)"
  have ts: "tap_state ?ym None None s" by (rule no_contact_tap_state [OF nc bf])
  obtain s1 c0 c1 where s1: "interrupts (concat fs) s = Inr s1" "between_frames s1"
      "tap_state ?ym c0 c1 s1" "tapToClick s1 = (tapToClick s \<and> tap_run ?ym None None fs)"
      "last_fingers s1 = (if fs = [] then last_fingers s else packet_fingers (last fs))"
    using contact_run [OF bf ts cf] by blast
  have tc: "tapToClick s1 = tap_eligible ?ym fs"
    using s1(4) nc by (simp add: tap_run_eligible no_contact_def)
  have "contact_frame (last fs)" using ne cf by simp
  then have lf: "last_fingers s1 = 1 \<or> last_fingers s1 = 2"
    using s1(5) ne by (simp add: contact_frame_def)
  obtain s' where s': "interrupts r s1 = Inr s'" "between_frames s'" "no_contact s'"
      "events s' = events s1
         @ [\<lparr>ev_dx = 0, ev_dy = 0, ev_buttons = fst (synthesize_click (packet_buttons r) s1)\<rparr>]"
    using release_frame_interrupts [OF s1(2,3) rf] by blast
  have "fst (synthesize_click (packet_buttons r) s1)
      = (if tap_eligible ?ym fs
         then packet_buttons r OR (if packet_fingers (last fs) = 1 then 0x1 else 0x2)
         else packet_buttons r)"
    using tc lf s1(5) ne by (auto simp add: synthesize_click_buttons)
  moreover have "interrupts (concat fs @ r) s = Inr s'"
    using s1(1) s'(1) by (simp add: interrupts_append)
  ultimately show ?thesis using s'(2-4) by simp
qed

lemma single_finger_eligible:
  assumes "\<forall>p\<in>set fs. packet_fingers p = 1"
  shows "tap_eligible ym fs = stays_in_tap_range ym fs"
proof -
  have "filter for_slot0 fs = fs" "filter (\<lambda>p. \<not> for_slot0 p) fs = []"
    using assms by (simp_all add: for_slot0_def)
  then show ?thesis by (simp add: tap_eligible_def stays_in_tap_range_def)
qed

lemma release_clears_and_rearms:
  "(tapToClick t \<and> last_fingers t \<le> 2 \<and> last_fingers t > 0 \<longrightarrow>
      \<not> tapToClick (snd (synthesize_click b t)))
   \<and> tapToClick (report_release b t)"
  by (simp add: synthesize_click_def report_release_def reset_tracking_def Let_def
      case_prod_beta)

lemma pad500_ready: "between_frames pad500" "no_contact pad500" "y_max (etd pad500) = 500"
  by (simp_all add: pad500_def trackpad_started_def between_frames_def no_contact_def
      ETP_MAX_FINGERS_def etd_unset_def)

lemma example_frames:
  "contact_frame frame_100_100" "contact_frame frame_0_100" "contact_frame frame_110_105"
  "contact_frame frame_200_100" "contact_frame frame_two_head" "contact_frame frame_two_tail"
  "release_frame frame_release"
  by (simp_all add: contact_frame_def release_frame_def frame_type_def packet_fingers_def
      elantech_packet_check_v3_def debounce_packet_def frame_100_100_def frame_0_100_def
      frame_110_105_def frame_200_100_def frame_two_head_def frame_two_tail_def
      frame_release_def PACKET_V3_HEAD_def PACKET_V3_TAIL_def PACKET_DEBOUNCE_def
      PACKET_UNKNOWN_def)

lemma example_fingers:
  "packet_fingers frame_100_100 = 1" "packet_fingers frame_0_100 = 1"
  "packet_fingers frame_110_105 = 1" "packet_fingers frame_200_100 = 1"
  "packet_fingers frame_two_head = 2" "packet_fingers frame_two_tail = 2"
  "packet_buttons frame_release = 0"
  by (simp_all add: packet_fingers_def packet_buttons_def frame_100_100_def frame_0_100_def
      frame_110_105_def frame_200_100_def frame_two_head_def frame_two_tail_def
      frame_release_def)

lemma example_samples:
  "sample_x frame_100_100 = 100" "sample_y 500 frame_100_100 = 100"
  "sample_x frame_0_100 = 0" "sample_y 500 frame_0_100 = 100"
  "sample_x frame_110_105 = 110" "sample_y 500 frame_110_105 = 105"
  "sample_x frame_200_100 = 200" "sample_y 500 frame_200_100 = 100"
  "sample_x frame_two_head = 100" "sample_y 500 frame_two_head = 100"
  "sample_x frame_two_tail = 300" "sample_y 500 frame_two_tail = 100"
  by (simp_all add: sample_x_def sample_y_def raw_x_def raw_y_def frame_100_100_def
      frame_0_100_def frame_110_105_def frame_200_100_def frame_two_head_def
      frame_two_tail_def)

lemma example_types:
  "frame_type frame_100_100 = PACKET_V3_HEAD" "frame_type frame_0_100 = PACKET_V3_HEAD"
  "frame_type frame_110_105 = PACKET_V3_HEAD" "frame_type frame_200_100 = PACKET_V3_HEAD"
  "frame_type frame_two_head = PACKET_V3_HEAD" "frame_type frame_two_tail = PACKET_V3_TAIL"
  "frame_type frame_release = PACKET_V3_HEAD" "frame_type debounce_packet = PACKET_DEBOUNCE"
  by (simp_all add: frame_type_def elantech_packet_check_v3_def debounce_packet_def
      frame_100_100_def frame_0_100_def frame_110_105_def frame_200_100_def
      frame_two_head_def frame_two_tail_def frame_release_def)

lemma example_slots:
  "for_slot0 frame_100_100" "for_slot0 frame_0_100" "for_slot0 frame_110_105"
  "for_slot0 frame_200_100" "for_slot0 frame_two_head" "\<not> for_slot0 frame_two_tail"
  by (simp_all add: for_slot0_def example_fingers example_types PACKET_V3_HEAD_def
      PACKET_V3_TAIL_def)

lemma example_eligible:
  "tap_eligible 500 [frame_100_100, frame_110_105]"
  "\<not> tap_eligible 500 [frame_100_100, frame_200_100, frame_110_105]"
  "tap_eligible 500 [frame_two_head, frame_two_tail, frame_two_head, frame_two_tail]"
  "tap_eligible 500 [frame_100_100, frame_0_100]"
  by (simp_all add: tap_eligible_def stays_in_tap_range_def example_slots valid_sample_def
      within_tap_def example_samples)

text \<open>
  C2.  A contact that starts on a decoder at rest, made of one-finger and two-finger
  frames that the classifier passes to the decoder, and a release frame.  The decoded
  samples are those with non-zero X and Y: the decoder takes no other, and the first
  of them is the latched start point of its finger slot.  The release frame
  dispatches, as the last event, zero motion with the buttons of the frame, and a
  synthesized bit, left after one finger and right after two, exactly when the
  decoded samples of each finger slot stayed within 32 units of the start point in
  both axes; for a contact of one-finger frames that is every decoded sample of the
  contact.  The synthesis clears the tap eligibility and the release sets it again,
  so the decoder is at rest afterwards.
\<close>

theorem C2_tap_to_click:
  assumes "between_frames s" and "no_contact s"
    and "fs \<noteq> []" and "\<forall>p\<in>set fs. contact_frame p" and "release_frame r"
  shows "(\<exists>s'. interrupts (concat fs @ r) s = Inr s'
           \<and> events s' \<noteq> []
           \<and> last (events s')
               = \<lparr>ev_dx = 0, ev_dy = 0,
                  ev_buttons =
                    (if tap_eligible (y_max (etd s)) fs
                     then packet_buttons r OR (if packet_fingers (last fs) = 1 then 0x1 else 0x2)
                     else packet_buttons r)\<rparr>
           \<and> between_frames s' \<and> no_contact s')
       \<and> ((\<forall>p\<in>set fs. packet_fingers p = 1) \<longrightarrow>
             tap_eligible (y_max (etd s)) fs = stays_in_tap_range (y_max (etd s)) fs)
       \<and> (tapToClick t \<and> last_fingers t \<le> 2 \<and> last_fingers t > 0 \<longrightarrow>
             \<not> tapToClick (snd (synthesize_click b t)))
       \<and> tapToClick (report_release b t)"
  using tap_release [OF assms] single_finger_eligible [of fs "y_max (etd s)"]
    release_clears_and_rearms [of t b]
  by blast

theorem C2_tap_to_click_witness:
  "(\<exists>s'. interrupts (frame_100_100 @ frame_110_105 @ frame_release) pad500 = Inr s'
      \<and> last (events s') = \<lparr>ev_dx = 0, ev_dy = 0, ev_buttons = 1\<rparr> \<and> no_contact s')
   \<and> (\<exists>s'. interrupts (frame_100_100 @ frame_200_100 @ frame_110_105 @ frame_release) pad500
              = Inr s'
      \<and> last (events s') = \<lparr>ev_dx = 0, ev_dy = 0, ev_buttons = 0\<rparr> \<and> no_contact s')
   \<and> (\<exists>s'. interrupts (frame_two_head @ frame_two_tail @ frame_two_head @ frame_two_tail
                          @ frame_release) pad500 = Inr s'
      \<and> last (events s') = \<lparr>ev_dx = 0, ev_dy = 0, ev_buttons = 2\<rparr> \<and> no_contact s')"
proof -
  have a: "\<forall>p\<in>set [frame_100_100, frame_110_105]. contact_frame p"
    and b: "\<forall>p\<in>set [frame_100_100, frame_200_100, frame_110_105]. contact_frame p"
    and c: "\<forall>p\<in>set [frame_two_head, frame_two_tail, frame_two_head, frame_two_tail].
              contact_frame p"
    by (simp_all add: example_frames)
  show ?thesis
    using C2_tap_to_click [OF pad500_ready(1,2) _ a example_frames(7)]
      C2_tap_to_click [OF pad500_ready(1,2) _ b example_frames(7)]
      C2_tap_to_click [OF pad500_ready(1,2) _ c example_frames(7)]
    by (simp add: pad500_ready(3) example_eligible example_fingers) blast
qed

text \<open>
  A sample with a zero coordinate is no sample of the contact: after the start at
  (100, 100) the frame that decodes to (0, 100) is skipped, and the release carries
  the synthesized left button.
\<close>

lemma zero_coordinate_skipped:
  "\<not> valid_sample 500 frame_0_100
   \<and> (\<exists>s'. interrupts (frame_100_100 @ frame_0_100 @ frame_release) pad500 = Inr s'
         \<and> last (events s') = \<lparr>ev_dx = 0, ev_dy = 0, ev_buttons = 1\<rparr>)"
proof -
  have a: "\<forall>p\<in>set [frame_100_100, frame_0_100]. contact_frame p"
    by (simp add: example_frames)
  have "\<exists>s'. interrupts (frame_100_100 @ frame_0_100 @ frame_release) pad500 = Inr s'
         \<and> last (events s') = \<lparr>ev_dx = 0, ev_dy = 0, ev_buttons = 1\<rparr>"
    using tap_release [OF pad500_ready(1,2) _ a example_frames(7)]
    by (simp add: pad500_ready(3) example_eligible example_fingers) blast
  then show ?thesis by (simp add: valid_sample_def example_samples)
qed

text \<open>
  C1: the code at the failing input.  On a generation 3 pad the six bytes of the
  debounce frame leave the byte count at 6, not at 0, with no event dispatched, and
  the next byte, whatever it is, is stored past the end of the six-byte buffer.  A
  frame that reaches the decoder (here the release frame) leaves the count at 0.
\<close>

theorem C1_debounce_leaves_count:
  "(\<exists>s'. interrupts debounce_packet pad500 = Inr s' \<and> packetByteCount s' = 6
        \<and> packetBuffer s' = debounce_packet \<and> events s' = []
        \<and> (\<forall>b. interruptOccurred b s' = Inl BufferOverrun))
   \<and> (\<exists>s'. interrupts frame_release pad500 = Inr s' \<and> packetByteCount s' = 0)"
proof
  have ld: "length debounce_packet = 6" by (simp add: debounce_packet_def)
  let ?s' = "pad500\<lparr>packetBuffer := debounce_packet, packetByteCount := 6\<rparr>"
  have "interrupts debounce_packet pad500 = Inr ?s'"
    using pad500_ready(1) ld
    by (simp add: frame_interrupts between_frames_def example_types)
  moreover have "\<forall>b. interruptOccurred b ?s' = Inl BufferOverrun"
    by (simp add: interruptOccurred_def ld)
  moreover have "events ?s' = []"
    by (simp add: pad500_def trackpad_started_def)
  ultimately show "\<exists>s'. interrupts debounce_packet pad500 = Inr s' \<and> packetByteCount s' = 6
        \<and> packetBuffer s' = debounce_packet \<and> events s' = []
        \<and> (\<forall>b. interruptOccurred b s' = Inl BufferOverrun)"
    by simp
next
  have ts: "tap_state (y_max (etd pad500)) None None pad500"
    by (rule no_contact_tap_state [OF pad500_ready(2,1)])
  from release_frame_interrupts [OF pad500_ready(1) ts example_frames(7)]
  show "\<exists>s'. interrupts frame_release pad500 = Inr s' \<and> packetByteCount s' = 0"
    by (auto simp add: between_frames_def)
qed

text \<open>
  The part of C1 that holds: a byte that does not complete a frame is only stored.
\<close>

lemma partial_frame_stored:
  assumes "unat (packetByteCount s) < length (packetBuffer s)"
    and "packetByteCount s + 1 \<noteq> ucast (pktsize s)"
  shows "interruptOccurred b s =
           Inr (s\<lparr>packetBuffer := (packetBuffer s)[unat (packetByteCount s) := b],
                  packetByteCount := packetByteCount s + 1\<rparr>)"
  using assms by (simp add: interruptOccurred_def Let_def)

lemma track_tap_last_point:
  "lastPoint (track_tap n g xn yn s) = lastPoint s"
  "validLastPoint (track_tap n g xn yn s) = validLastPoint s"
  "events (track_tap n g xn yn s) = events s"
  by (auto simp add: track_tap_def Let_def)

text \<open>
  C6.  For a one-finger frame the decoded X is \<open>(byte1 & 0x0F) * 256 + byte2\<close> and the
  decoded Y is the Y maximum minus \<open>(byte4 & 0x0F) * 256 + byte5\<close>, in 32-bit
  unsigned arithmetic; when both are non-zero the decoder stores them as the last
  point, and after an earlier point it dispatches the difference to it.  Bytes 0x01
  and 0x23 give X = 291, and bytes 0x00 and 0x00 with the Y maximum 500 give Y = 500.
\<close>

theorem C6_decode_coordinates:
  assumes "packet_fingers packet = 1"
  shows "unat (decode_x packet) = unat (packet ! 1) mod 16 * 256 + unat (packet ! 2)
       \<and> decode_y (etd s) packet
           = y_max (etd s) - of_nat (unat (packet ! 4) mod 16 * 256 + unat (packet ! 5))
       \<and> (decode_x packet \<noteq> 0 \<and> decode_y (etd s) packet \<noteq> 0 \<longrightarrow>
            lastPoint (elantech_report_absolute_v3 packet sz ty s)
              = \<lparr>pt_x = ucast (decode_x packet), pt_y = ucast (decode_y (etd s) packet)\<rparr>
            \<and> validLastPoint (elantech_report_absolute_v3 packet sz ty s)
            \<and> (validLastPoint s \<longrightarrow>
                 events (elantech_report_absolute_v3 packet sz ty s)
                   = events s
                     @ [\<lparr>ev_dx = decode_x packet - scast (pt_x (lastPoint s)),
                         ev_dy = decode_y (etd s) packet - scast (pt_y (lastPoint s)),
                         ev_buttons = packet_buttons packet\<rparr>]))
       \<and> (packet ! 1 = 0x01 \<and> packet ! 2 = 0x23 \<longrightarrow> decode_x packet = 291)
       \<and> (packet ! 4 = 0x00 \<and> packet ! 5 = 0x00 \<and> y_max (etd s) = 500 \<longrightarrow>
            decode_y (etd s) packet = 500)"
proof (intro conjI impI)
  show "unat (decode_x packet) = unat (packet ! 1) mod 16 * 256 + unat (packet ! 2)"
    using unat_decode_x [of packet] by (simp add: raw_x_def)
  have "decode_y (etd s) packet = word_of_int (sample_y (y_max (etd s)) packet)"
    by (rule decode_y_of_int [OF refl])
  then show "decode_y (etd s) packet
           = y_max (etd s) - of_nat (unat (packet ! 4) mod 16 * 256 + unat (packet ! 5))"
    by (simp add: sample_y_def raw_y_def)
next
  assume v: "decode_x packet \<noteq> 0 \<and> decode_y (etd s) packet \<noteq> 0"
  show "lastPoint (elantech_report_absolute_v3 packet sz ty s)
              = \<lparr>pt_x = ucast (decode_x packet), pt_y = ucast (decode_y (etd s) packet)\<rparr>"
    using assms v
    by (simp add: elantech_report_absolute_v3_def report_one_finger_def Let_def
        track_tap_last_point dispatchRelativePointerEvent_def)
  show "validLastPoint (elantech_report_absolute_v3 packet sz ty s)"
    using assms v
    by (simp add: elantech_report_absolute_v3_def report_one_finger_def Let_def
        track_tap_last_point)
  assume "validLastPoint s"
  then show "events (elantech_report_absolute_v3 packet sz ty s)
                   = events s
                     @ [\<lparr>ev_dx = decode_x packet - scast (pt_x (lastPoint s)),
                         ev_dy = decode_y (etd s) packet - scast (pt_y (lastPoint s)),
                         ev_buttons = packet_buttons packet\<rparr>]"
    using assms v
    by (simp add: elantech_report_absolute_v3_def report_one_finger_def Let_def
        track_tap_last_point dispatchRelativePointerEvent_def)
next
  assume "packet ! 1 = 0x01 \<and> packet ! 2 = 0x23"
  then show "decode_x packet = 291" by (simp add: decode_x_def)
next
  assume "packet ! 4 = 0x00 \<and> packet ! 5 = 0x00 \<and> y_max (etd s) = 500"
  then show "decode_y (etd s) packet = 500" by (simp add: decode_y_def)
qed

theorem C6_decode_coordinates_witness:
  "decode_x [0x44, 0x01, 0x23, 0x02, 0x00, 0x00] = 291
   \<and> decode_y (etd pad500) [0x44, 0x01, 0x23, 0x02, 0x00, 0x00] = 500
   \<and> lastPoint (elantech_report_absolute_v3 [0x44, 0x01, 0x23, 0x02, 0x00, 0x00] 6
                   PACKET_V3_HEAD pad500) = \<lparr>pt_x = 291, pt_y = 500\<rparr>"
proof -
  have f: "packet_fingers [0x44, 0x01, 0x23, 0x02, 0x00, 0x00] = 1"
    by (simp add: packet_fingers_def)
  show ?thesis
    using C6_decode_coordinates [OF f, of pad500 6 PACKET_V3_HEAD]
    by (simp add: pad500_ready(3))
qed



end
